theory Spec2Isabelle
  imports Main
begin

section \<open>Strings of the host language\<close>

text \<open>
  A script line is a \<^typ>\<open>string\<close>: a list of code units, each below 256.  The character
  classes of the source's regular expressions and of \<^verbatim>\<open>String.prototype.trim\<close> are
  read off the code unit.  Within this range the white space of the host language is
  TAB, LF, VT, FF, CR, SPACE and NBSP; both \<^verbatim>\<open>trim\<close> and the class \<^verbatim>\<open>\s\<close> use it.
\<close>

definition charCode :: "char \<Rightarrow> nat" where
  "charCode c = of_char c"

definition isWhiteSpace :: "char \<Rightarrow> bool" where
  "isWhiteSpace c = (let n = charCode c in (9 \<le> n \<and> n \<le> 13) \<or> n = 32 \<or> n = 160)"

definition isUpper :: "char \<Rightarrow> bool" where
  "isUpper c = (let n = charCode c in 65 \<le> n \<and> n \<le> 90)"

definition isLower :: "char \<Rightarrow> bool" where
  "isLower c = (let n = charCode c in 97 \<le> n \<and> n \<le> 122)"

definition isDigit :: "char \<Rightarrow> bool" where
  "isDigit c = (let n = charCode c in 48 \<le> n \<and> n \<le> 57)"

text \<open>The class \<^verbatim>\<open>[A-Z_]\<close> and the class \<^verbatim>\<open>[A-Z0-9_]\<close> of the command pattern.\<close>

definition isCmdStart :: "char \<Rightarrow> bool" where
  "isCmdStart c = (isUpper c \<or> c = CHR ''_'')"

definition isCmdChar :: "char \<Rightarrow> bool" where
  "isCmdChar c = (isUpper c \<or> isDigit c \<or> c = CHR ''_'')"

text \<open>The class \<^verbatim>\<open>[a-zA-Z_]\<close> and the class \<^verbatim>\<open>[a-zA-Z0-9_]\<close> of the label pattern.\<close>

definition isLabelStart :: "char \<Rightarrow> bool" where
  "isLabelStart c = (isLower c \<or> isUpper c \<or> c = CHR ''_'')"

definition isLabelChar :: "char \<Rightarrow> bool" where
  "isLabelChar c = (isLower c \<or> isUpper c \<or> isDigit c \<or> c = CHR ''_'')"

definition isQuote :: "char \<Rightarrow> bool" where
  "isQuote c = (c = CHR 0x22 \<or> c = CHR 0x27)"

definition trim :: "string \<Rightarrow> string" where
  "trim s = rev (dropWhile isWhiteSpace (rev (dropWhile isWhiteSpace s)))"

definition startsWith :: "string \<Rightarrow> string \<Rightarrow> bool" where
  "startsWith s p = (take (length p) s = p)"

text \<open>
  \<^verbatim>\<open>substring(a, b)\<close> clamps both indices into the string and swaps them when they
  are out of order; \<^verbatim>\<open>substring(a)\<close> runs to the end of the string.
\<close>

definition substring :: "string \<Rightarrow> int \<Rightarrow> int \<Rightarrow> string" where
  "substring s a b =
     (let n = int (length s);
          a' = max 0 (min a n);
          b' = max 0 (min b n);
          lo = min a' b';
          hi = max a' b'
      in take (nat (hi - lo)) (drop (nat lo) s))"

definition substringFrom :: "string \<Rightarrow> int \<Rightarrow> string" where
  "substringFrom s a = substring s a (int (length s))"

text \<open>
  \<^verbatim>\<open>indexOf(needle, from)\<close>: the least index at or after \<open>from\<close> where the needle
  occurs, and \<open>-1\<close> when there is none.
\<close>

fun findFrom :: "string \<Rightarrow> string \<Rightarrow> nat \<Rightarrow> int" where
  "findFrom needle [] k = (if needle = [] then int k else - 1)"
| "findFrom needle (c # cs) k =
     (if take (length needle) (c # cs) = needle then int k else findFrom needle cs (Suc k))"

definition indexOf :: "string \<Rightarrow> string \<Rightarrow> int \<Rightarrow> int" where
  "indexOf s needle from =
     (let k = nat (max 0 (min from (int (length s)))) in findFrom needle (drop k s) k)"

fun findLast :: "string \<Rightarrow> string \<Rightarrow> nat \<Rightarrow> int \<Rightarrow> int" where
  "findLast needle [] k acc = (if needle = [] then int k else acc)"
| "findLast needle (c # cs) k acc =
     findLast needle cs (Suc k) (if take (length needle) (c # cs) = needle then int k else acc)"

definition lastIndexOf :: "string \<Rightarrow> string \<Rightarrow> int" where
  "lastIndexOf s needle = findLast needle s 0 (- 1)"

definition includesStr :: "string \<Rightarrow> string \<Rightarrow> bool" where
  "includesStr s needle = (indexOf s needle 0 \<noteq> - 1)"

text \<open>\<^verbatim>\<open>replace(/['"]/g, '')\<close> deletes every quote character.\<close>

definition stripQuotes :: "string \<Rightarrow> string" where
  "stripQuotes s = filter (\<lambda>c. \<not> isQuote c) s"

text \<open>\<^verbatim>\<open>replace('(', '')\<close> with a string pattern deletes the first occurrence only.\<close>

definition replaceFirstParen :: "string \<Rightarrow> string" where
  "replaceFirstParen s = remove1 (CHR ''('') s"

text \<open>Rendering of a number inside a template literal.\<close>

definition digitChar :: "nat \<Rightarrow> char" where
  "digitChar d = char_of (48 + d)"

function showNat :: "nat \<Rightarrow> string" where
  "showNat n = (if n < 10 then [digitChar n] else showNat (n div 10) @ [digitChar (n mod 10)])"
  by pat_completeness auto
termination
  by (relation "measure id") auto

declare showNat.simps [simp del]

section \<open>The regular expressions of the parser\<close>

text \<open>
  \<^verbatim>\<open>/^([a-zA-Z_][a-zA-Z0-9_]*):/\<close> is anchored at the start of the line.  The
  star is greedy, and giving characters back cannot help: a character given back is an
  identifier character, never the colon.  So the match is the longest identifier,
  followed by a colon.  The result is group 1.
\<close>

definition labelMatch :: "string \<Rightarrow> string option" where
  "labelMatch text =
     (case text of
        [] \<Rightarrow> None
      | c # cs \<Rightarrow>
          if isLabelStart c then
            (case dropWhile isLabelChar cs of
               [] \<Rightarrow> None
             | d # _ \<Rightarrow> if d = CHR '':'' then Some (c # takeWhile isLabelChar cs) else None)
          else None)"

text \<open>
  \<^verbatim>\<open>/([A-Z_][A-Z0-9_]*)\s*\(/\<close> tried at the head of a string.  The three parts
  use disjoint classes (name characters, white space, the parenthesis), so again the
  greedy match is the only candidate.  The result is group 1 and the white space
  between the name and the parenthesis; the whole match is name, white space, \<open>(\<close>.
\<close>

definition cmdRegexAt :: "string \<Rightarrow> (string \<times> string) option" where
  "cmdRegexAt s =
     (case s of
        [] \<Rightarrow> None
      | c # cs \<Rightarrow>
          if isCmdStart c then
            (let r1 = dropWhile isCmdChar cs in
             case dropWhile isWhiteSpace r1 of
               [] \<Rightarrow> None
             | d # _ \<Rightarrow>
                 if d = CHR ''('' then Some (c # takeWhile isCmdChar cs, takeWhile isWhiteSpace r1)
                 else None)
          else None)"

text \<open>Without the \<open>g\<close> flag: the leftmost match, with its index.\<close>

fun cmdRegexExec :: "string \<Rightarrow> nat \<Rightarrow> (nat \<times> string \<times> string) option" where
  "cmdRegexExec [] k = None"
| "cmdRegexExec (c # cs) k =
     (case cmdRegexAt (c # cs) of
        Some (name, ws) \<Rightarrow> Some (k, name, ws)
      | None \<Rightarrow> cmdRegexExec cs (Suc k))"

definition cmdMatch :: "string \<Rightarrow> string option" where
  "cmdMatch text = map_option (\<lambda>(k, name, ws). name) (cmdRegexExec text 0)"

text \<open>With the \<open>g\<close> flag: every match from left to right, each search resuming after the
  previous match.\<close>

function cmdRegexAll :: "string \<Rightarrow> (string \<times> string) list" where
  "cmdRegexAll [] = []"
| "cmdRegexAll (c # cs) =
     (case cmdRegexAt (c # cs) of
        Some (name, ws) \<Rightarrow> (name, ws) # cmdRegexAll (drop (length name + length ws) cs)
      | None \<Rightarrow> cmdRegexAll cs)"
  by pat_completeness auto
termination
  by (relation "measure length") auto

definition cmdMatchAll :: "string \<Rightarrow> string list" where
  "cmdMatchAll text = map (\<lambda>(name, ws). name @ ws @ ''('') (cmdRegexAll text)"

text \<open>\<^verbatim>\<open>/^-?\d+(\.\d+)?$/\<close> and \<^verbatim>\<open>/^(GE|GT|LE|LT|EQ|NE)$/\<close>.\<close>

definition isNumberLiteral :: "string \<Rightarrow> bool" where
  "isNumberLiteral v =
     (let s = (case v of [] \<Rightarrow> [] | c # cs \<Rightarrow> if c = CHR ''-'' then cs else c # cs);
          ds = takeWhile isDigit s;
          rest = dropWhile isDigit s
      in ds \<noteq> [] \<and>
         (case rest of
            [] \<Rightarrow> True
          | d # fs \<Rightarrow> d = CHR ''.'' \<and> fs \<noteq> [] \<and> list_all isDigit fs))"

definition isComparatorLiteral :: "string \<Rightarrow> bool" where
  "isComparatorLiteral v = (v \<in> set [''GE'', ''GT'', ''LE'', ''LT'', ''EQ'', ''NE''])"

section \<open>The structural model\<close>

text \<open>
  The editor's \<^verbatim>\<open>Range\<close>, built from four numbers.  Its constructor swaps the two
  positions when the start lies after the end.
\<close>

record Range =
  startLine :: nat
  startCharacter :: nat
  endLine :: nat
  endCharacter :: nat

definition mkRange :: "nat \<Rightarrow> nat \<Rightarrow> nat \<Rightarrow> nat \<Rightarrow> Range" where
  "mkRange sl sc el ec =
     (if sl < el \<or> (sl = el \<and> sc \<le> ec)
      then \<lparr>startLine = sl, startCharacter = sc, endLine = el, endCharacter = ec\<rparr>
      else \<lparr>startLine = el, startCharacter = ec, endLine = sl, endCharacter = sc\<rparr>)"

text \<open>
  The interfaces of \<^verbatim>\<open>parser.ts\<close>.  Several of them have fields called
  \<^verbatim>\<open>name\<close>, \<^verbatim>\<open>line\<close>, \<^verbatim>\<open>range\<close>, \<^verbatim>\<open>value\<close> and \<^verbatim>\<open>type\<close>;
  each field carries a prefix for its interface here.
\<close>

datatype ArgType =
  T_number | T_string | T_work | T_flag | T_sysflag | T_label | T_comparator | T_unknown

record ParsedLabel =
  lbl_name :: string
  lbl_line :: nat
  lbl_range :: Range

record ParsedArgument =
  arg_value :: string
  arg_type :: ArgType
  arg_range :: Range

record ParsedCommand =
  cmd_name :: string
  cmd_line :: nat
  cmd_column :: nat
  cmd_args :: "ParsedArgument list"
  cmd_range :: Range

record LabelReference =
  ref_name :: string
  ref_range :: Range
  ref_line :: nat

record ParsedDocument =
  labels :: "string \<rightharpoonup> ParsedLabel"
  commands :: "ParsedCommand list"
  labelReferences :: "LabelReference list"

section \<open>Argument classification and splitting\<close>

definition createArgument :: "string \<Rightarrow> nat \<Rightarrow> nat \<Rightarrow> nat \<Rightarrow> ParsedArgument" where
  "createArgument v line startCol endCol =
     (let r = mkRange line startCol line endCol in
      if startsWith v ''@'' then \<lparr>arg_value = v, arg_type = T_work, arg_range = r\<rparr>
      else if startsWith v ''#'' then \<lparr>arg_value = v, arg_type = T_flag, arg_range = r\<rparr>
      else if startsWith v ''$'' then \<lparr>arg_value = v, arg_type = T_sysflag, arg_range = r\<rparr>
      else if startsWith v [CHR 0x22] \<or> startsWith v [CHR 0x27]
        then \<lparr>arg_value = v, arg_type = T_string, arg_range = r\<rparr>
      else if isNumberLiteral v then \<lparr>arg_value = v, arg_type = T_number, arg_range = r\<rparr>
      else if isComparatorLiteral v then \<lparr>arg_value = v, arg_type = T_comparator, arg_range = r\<rparr>
      else \<lparr>arg_value = v, arg_type = T_unknown, arg_range = r\<rparr>)"

text \<open>The local variables of \<^verbatim>\<open>parseArguments\<close>, and one turn of its loop.\<close>

record ArgScan =
  sc_args :: "ParsedArgument list"
  sc_currentArg :: string
  sc_inString :: bool
  sc_stringChar :: string
  sc_argStartCol :: nat
  sc_col :: nat

definition scanChar :: "nat \<Rightarrow> nat \<Rightarrow> nat \<Rightarrow> char \<Rightarrow> ArgScan \<Rightarrow> ArgScan" where
  "scanChar line startCol i ch s0 =
     (let col = startCol + i;
          s = s0\<lparr>sc_col := col\<rparr>
      in
      if \<not> sc_inString s \<and> (ch = CHR 0x22 \<or> ch = CHR 0x27) then
        s\<lparr>sc_inString := True, sc_stringChar := [ch], sc_currentArg := sc_currentArg s @ [ch]\<rparr>
      else if sc_inString s \<and> [ch] = sc_stringChar s then
        s\<lparr>sc_inString := False, sc_currentArg := sc_currentArg s @ [ch]\<rparr>
      else if \<not> sc_inString s \<and> ch = CHR '','' then
        s\<lparr>sc_args :=
            (if trim (sc_currentArg s) \<noteq> []
             then sc_args s @ [createArgument (trim (sc_currentArg s)) line (sc_argStartCol s) col]
             else sc_args s),
          sc_currentArg := [],
          sc_argStartCol := col + 1\<rparr>
      else
        s\<lparr>sc_argStartCol :=
            (if sc_currentArg s = [] \<and> ch \<noteq> CHR '' '' \<and> ch \<noteq> CHR 0x09 then col
             else sc_argStartCol s),
          sc_currentArg := sc_currentArg s @ [ch]\<rparr>)"

fun scanArgs :: "nat \<Rightarrow> nat \<Rightarrow> nat \<Rightarrow> string \<Rightarrow> ArgScan \<Rightarrow> ArgScan" where
  "scanArgs line startCol i [] s = s"
| "scanArgs line startCol i (ch # rest) s =
     scanArgs line startCol (Suc i) rest (scanChar line startCol i ch s)"

definition initScan :: "nat \<Rightarrow> ArgScan" where
  "initScan startCol =
     \<lparr>sc_args = [], sc_currentArg = [], sc_inString = False, sc_stringChar = [],
      sc_argStartCol = startCol, sc_col = startCol\<rparr>"

definition parseArguments :: "string \<Rightarrow> nat \<Rightarrow> nat \<Rightarrow> ParsedArgument list" where
  "parseArguments argsText line startCol =
     (if trim argsText = [] then []
      else
        (let s = scanArgs line startCol 0 argsText (initScan startCol) in
         if trim (sc_currentArg s) \<noteq> []
         then sc_args s @
                [createArgument (trim (sc_currentArg s)) line (sc_argStartCol s) (sc_col s + 1)]
         else sc_args s))"

section \<open>Jump and call commands\<close>

definition JUMP_COMMANDS :: "string list" where
  "JUMP_COMMANDS =
     [''_JUMP'', ''_CALL'',
      ''_IF_FLAGON_JUMP'', ''_IF_FLAGOFF_JUMP'',
      ''_IF_FLAGON_CALL'', ''_IF_FLAGOFF_CALL'',
      ''_IFVAL_JUMP'', ''_IFVAL_CALL'',
      ''_OBJ_ANIME'']"

definition isJumpCommand :: "string \<Rightarrow> bool" where
  "isJumpCommand cmdName = (cmdName \<in> set JUMP_COMMANDS)"

text \<open>\<^verbatim>\<open>args[k] || null\<close>: an index past the end reads \<^verbatim>\<open>undefined\<close>.\<close>

definition argAt :: "ParsedArgument list \<Rightarrow> nat \<Rightarrow> ParsedArgument option" where
  "argAt args k = (if k < length args then Some (args ! k) else None)"

definition getLabelArgument :: "string \<Rightarrow> ParsedArgument list \<Rightarrow> ParsedArgument option" where
  "getLabelArgument cmdName args =
     (if cmdName = ''_JUMP'' \<or> cmdName = ''_CALL'' then argAt args 0
      else if cmdName = ''_IF_FLAGON_JUMP'' \<or> cmdName = ''_IF_FLAGOFF_JUMP''
              \<or> cmdName = ''_IF_FLAGON_CALL'' \<or> cmdName = ''_IF_FLAGOFF_CALL'' then argAt args 1
      else if cmdName = ''_IFVAL_JUMP'' \<or> cmdName = ''_IFVAL_CALL'' then argAt args 3
      else if cmdName = ''_OBJ_ANIME'' then argAt args 1
      else None)"

section \<open>The document parser\<close>

fun matchParenLoop :: "string \<Rightarrow> nat \<Rightarrow> int \<Rightarrow> int" where
  "matchParenLoop [] i depth = - 1"
| "matchParenLoop (c # cs) i depth =
     (if c = CHR ''('' then matchParenLoop cs (Suc i) (depth + 1)
      else if c = CHR '')'' then
        (if depth - 1 = 0 then int i else matchParenLoop cs (Suc i) (depth - 1))
      else matchParenLoop cs (Suc i) depth)"

definition findMatchingParen :: "string \<Rightarrow> int \<Rightarrow> int" where
  "findMatchingParen text openIndex =
     matchParenLoop (drop (nat (openIndex + 1)) text) (nat (openIndex + 1)) 1"

text \<open>A line that is blank, or a comment, after trimming.\<close>

definition isSkipped :: "string \<Rightarrow> bool" where
  "isSkipped text =
     (let trimmed = trim text in
      trimmed = [] \<or> startsWith trimmed '';'' \<or> startsWith trimmed ''//'')"

text \<open>The label rule: the body of \<^verbatim>\<open>if (labelMatch)\<close>.\<close>

definition labelStep :: "string \<Rightarrow> nat \<Rightarrow> ParsedDocument \<Rightarrow> ParsedDocument" where
  "labelStep text i d =
     (case labelMatch text of
        None \<Rightarrow> d
      | Some labelName \<Rightarrow>
          (let startCol = nat (indexOf text labelName 0) in
           d\<lparr>labels := (labels d)(labelName \<mapsto>
                \<lparr>lbl_name = labelName, lbl_line = i,
                 lbl_range = mkRange i startCol i (startCol + length labelName + 1)\<rparr>)\<rparr>))"

text \<open>
  The command rule: the body of \<^verbatim>\<open>if (cmdMatch)\<close>, in three parts.  First the
  parsed command that is pushed.
\<close>

definition parseCommand :: "string \<Rightarrow> nat \<Rightarrow> string \<Rightarrow> ParsedCommand" where
  "parseCommand text i cmdName =
     (let cmdStartCol = indexOf text cmdName 0;
          openParen = indexOf text ''('' cmdStartCol;
          closeParen = findMatchingParen text openParen;
          argsText = (if closeParen > openParen
                      then substring text (openParen + 1) closeParen
                      else substringFrom text (openParen + 1));
          args = parseArguments argsText i (nat (openParen + 1))
      in
      \<lparr>cmd_name = cmdName, cmd_line = i, cmd_column = nat cmdStartCol,
       cmd_args = args,
       cmd_range = mkRange i (nat cmdStartCol) i
         (if closeParen > 0 then nat (closeParen + 1) else length text)\<rparr>)"

text \<open>Then the label reference tracked for a jump or call command.\<close>

definition trackReference ::
  "string \<Rightarrow> ParsedArgument list \<Rightarrow> nat \<Rightarrow> LabelReference list \<Rightarrow> LabelReference list" where
  "trackReference cmdName args i refs =
     (if isJumpCommand cmdName \<and> length args > 0 then
        (case getLabelArgument cmdName args of
           None \<Rightarrow> refs
         | Some labelArg \<Rightarrow>
             if arg_type labelArg = T_string then
               refs @ [\<lparr>ref_name = stripQuotes (arg_value labelArg),
                        ref_range = arg_range labelArg, ref_line = i\<rparr>]
             else refs)
      else refs)"

definition commandStep :: "string \<Rightarrow> nat \<Rightarrow> ParsedDocument \<Rightarrow> ParsedDocument" where
  "commandStep text i d =
     (case cmdMatch text of
        None \<Rightarrow> d
      | Some cmdName \<Rightarrow>
          (let cmd = parseCommand text i cmdName in
           d\<lparr>commands := commands d @ [cmd],
             labelReferences := trackReference cmdName (cmd_args cmd) i (labelReferences d)\<rparr>))"

definition parseLine :: "string \<Rightarrow> nat \<Rightarrow> ParsedDocument \<Rightarrow> ParsedDocument" where
  "parseLine text i d = (if isSkipped text then d else commandStep text i (labelStep text i d))"

fun parseLoop :: "string list \<Rightarrow> nat \<Rightarrow> ParsedDocument \<Rightarrow> ParsedDocument" where
  "parseLoop [] i d = d"
| "parseLoop (text # rest) i d = parseLoop rest (Suc i) (parseLine text i d)"

definition emptyDocument :: ParsedDocument where
  "emptyDocument = \<lparr>labels = Map.empty, commands = [], labelReferences = []\<rparr>"

text \<open>A document is the list of its lines.\<close>

definition parseDocument :: "string list \<Rightarrow> ParsedDocument" where
  "parseDocument document = parseLoop document 0 emptyDocument"

section \<open>The active call context\<close>

definition getActiveContext :: "string \<Rightarrow> nat \<Rightarrow> (string \<times> nat) option" where
  "getActiveContext line character =
     (let textUntilPosition = substring line 0 (int character);
          matches = cmdMatchAll textUntilPosition
      in
      if matches = [] then None
      else
        (let lastMatch = last matches;
             cmdName = trim (replaceFirstParen lastMatch);
             openParenIndex = lastIndexOf textUntilPosition ''('';
             textAfterOpenParen = substringFrom textUntilPosition openParenIndex
         in
         if includesStr textAfterOpenParen '')'' then None
         else Some (cmdName, length (filter (\<lambda>c. c = CHR '','') textAfterOpenParen))))"

section \<open>The schema registry\<close>

text \<open>
  The interfaces of \<^verbatim>\<open>dataLoader.ts\<close>.  The validator reads \<^verbatim>\<open>Args\<close> and
  \<^verbatim>\<open>Type\<close> as \<^verbatim>\<open>x || []\<close>, so a table entry may lack them: they are options.
\<close>

record CommandArg =
  TentativeName :: string
  ArgDescription :: string
  Type :: "string list option"
  Optional :: bool

record Command =
  CmdId :: int
  Name :: string
  Description :: string
  Dummy :: bool
  Animation :: bool
  Args :: "CommandArg list option"

record DataLoader =
  commandLookup :: "string \<rightharpoonup> Command"

definition getCommand :: "DataLoader \<Rightarrow> string \<Rightarrow> Command option" where
  "getCommand dl name = commandLookup dl name"

definition orEmpty :: "'a list option \<Rightarrow> 'a list" where
  "orEmpty x = (case x of None \<Rightarrow> [] | Some xs \<Rightarrow> xs)"

section \<open>The semantic validator\<close>

datatype DiagnosticSeverity = Error | Warning | Information | Hint

record Diagnostic =
  diag_range :: Range
  diag_message :: string
  diag_severity :: DiagnosticSeverity
  diag_source :: string

definition createDiagnostic :: "Range \<Rightarrow> string \<Rightarrow> DiagnosticSeverity \<Rightarrow> Diagnostic" where
  "createDiagnostic r message severity =
     \<lparr>diag_range = r, diag_message = message, diag_severity = severity,
      diag_source = ''bdsp-ev''\<rparr>"

definition VALID_COMPARATORS :: "string list" where
  "VALID_COMPARATORS = [''GE'', ''GT'', ''LE'', ''LT'', ''EQ'', ''NE'']"

text \<open>The validator's own table of jump and call commands: the index of the argument
  that carries the label.\<close>

definition labelArgIndexTable :: "(string \<times> nat) list" where
  "labelArgIndexTable =
     [(''_JUMP'', 0), (''_CALL'', 0),
      (''_IF_FLAGON_JUMP'', 1), (''_IF_FLAGOFF_JUMP'', 1),
      (''_IF_FLAGON_CALL'', 1), (''_IF_FLAGOFF_CALL'', 1),
      (''_IFVAL_JUMP'', 3), (''_IFVAL_CALL'', 3),
      (''_OBJ_ANIME'', 1)]"

definition labelArgIndex :: "string \<Rightarrow> nat option" where
  "labelArgIndex cmdName = map_of labelArgIndexTable cmdName"

definition IFVAL_COMMANDS :: "string list" where
  "IFVAL_COMMANDS = [''_IFVAL_JUMP'', ''_IFVAL_CALL'']"

definition validateArgumentCount :: "ParsedCommand \<Rightarrow> Command \<Rightarrow> Diagnostic option" where
  "validateArgumentCount cmd cmdDef =
     (let expectedArgs = orEmpty (Args cmdDef);
          requiredCount = length (filter (\<lambda>arg. \<not> Optional arg) expectedArgs);
          maxCount = length expectedArgs;
          actualCount = length (cmd_args cmd)
      in
      if actualCount < requiredCount then
        Some (createDiagnostic (cmd_range cmd)
          (cmd_name cmd @ '' requires at least '' @ showNat requiredCount
             @ '' argument(s), but got '' @ showNat actualCount)
          Error)
      else if actualCount > maxCount then
        Some (createDiagnostic (cmd_range cmd)
          (cmd_name cmd @ '' accepts at most '' @ showNat maxCount
             @ '' argument(s), but got '' @ showNat actualCount)
          Warning)
      else None)"

definition argTypeName :: "ArgType \<Rightarrow> string" where
  "argTypeName t =
     (case t of
        T_number \<Rightarrow> ''number'' | T_string \<Rightarrow> ''string'' | T_work \<Rightarrow> ''work''
      | T_flag \<Rightarrow> ''flag'' | T_sysflag \<Rightarrow> ''sysflag'' | T_label \<Rightarrow> ''label''
      | T_comparator \<Rightarrow> ''comparator'' | T_unknown \<Rightarrow> ''unknown'')"

text \<open>One round of the \<^verbatim>\<open>switch\<close> of \<^verbatim>\<open>isArgumentTypeValid\<close>.\<close>

definition typeAccepts :: "ArgType \<Rightarrow> string \<Rightarrow> bool" where
  "typeAccepts t expectedType =
     (if expectedType = ''Number'' then t = T_number
      else if expectedType = ''Work'' then t = T_work \<or> t = T_number
      else if expectedType = ''Flag'' then t = T_flag \<or> t = T_number
      else if expectedType = ''SysFlag'' \<or> expectedType = ''System''
        then t = T_sysflag \<or> t = T_number
      else if expectedType = ''Label'' then t = T_string
      else if expectedType = ''String'' then t = T_string
      else False)"

fun isArgumentTypeValid :: "ParsedArgument \<Rightarrow> string list \<Rightarrow> bool" where
  "isArgumentTypeValid arg [] = (arg_type arg = T_unknown)"
| "isArgumentTypeValid arg (expectedType # rest) =
     (if typeAccepts (arg_type arg) expectedType then True else isArgumentTypeValid arg rest)"

fun joinWith :: "string \<Rightarrow> string list \<Rightarrow> string" where
  "joinWith sep [] = []"
| "joinWith sep [x] = x"
| "joinWith sep (x # y # ys) = x @ sep @ joinWith sep (y # ys)"

fun validateArgumentTypesLoop ::
  "nat \<Rightarrow> ParsedArgument list \<Rightarrow> CommandArg list \<Rightarrow> Diagnostic list \<Rightarrow> Diagnostic list" where
  "validateArgumentTypesLoop i (arg # args) (expectedArg # expectedArgs) diagnostics =
     (let expectedTypes = orEmpty (Type expectedArg) in
      if expectedTypes = [] then validateArgumentTypesLoop (Suc i) args expectedArgs diagnostics
      else if \<not> isArgumentTypeValid arg expectedTypes then
        validateArgumentTypesLoop (Suc i) args expectedArgs
          (diagnostics @
            [createDiagnostic (arg_range arg)
               (''Argument '' @ showNat (i + 1) @ '' ('' @ TentativeName expectedArg
                  @ ''): expected '' @ joinWith '' | '' expectedTypes
                  @ '', got '' @ argTypeName (arg_type arg))
               Warning])
      else validateArgumentTypesLoop (Suc i) args expectedArgs diagnostics)"
| "validateArgumentTypesLoop i args expectedArgs diagnostics = diagnostics"

definition validateArgumentTypes :: "ParsedCommand \<Rightarrow> Command \<Rightarrow> Diagnostic list" where
  "validateArgumentTypes cmd cmdDef =
     validateArgumentTypesLoop 0 (cmd_args cmd) (orEmpty (Args cmdDef)) []"

definition validateLabelReference ::
  "ParsedCommand \<Rightarrow> Command \<Rightarrow> (string \<rightharpoonup> ParsedLabel) \<Rightarrow> Diagnostic option" where
  "validateLabelReference cmd cmdDef lbls =
     (case labelArgIndex (cmd_name cmd) of
        None \<Rightarrow> None
      | Some idx \<Rightarrow>
          (case argAt (cmd_args cmd) idx of
             None \<Rightarrow> None
           | Some arg \<Rightarrow>
               if arg_type arg \<noteq> T_string then None
               else
                 (let labelName = stripQuotes (arg_value arg) in
                  if lbls labelName = None then
                    Some (createDiagnostic (arg_range arg)
                            (''Undefined label: '' @ labelName) Error)
                  else None)))"

definition validateComparator :: "ParsedCommand \<Rightarrow> Command \<Rightarrow> Diagnostic option" where
  "validateComparator cmd cmdDef =
     (if cmd_name cmd \<notin> set IFVAL_COMMANDS then None
      else
        (case argAt (cmd_args cmd) 1 of
           None \<Rightarrow> None
         | Some arg \<Rightarrow>
             (let v = stripQuotes (arg_value arg) in
              if v \<notin> set VALID_COMPARATORS then
                Some (createDiagnostic (arg_range arg)
                        (''Invalid comparator: '' @ v
                           @ ''. Expected one of: GE, GT, LE, LT, EQ, NE'')
                        Error)
              else None)))"

text \<open>\<^verbatim>\<open>if (d) diagnostics.push(d)\<close>.\<close>

definition pushOpt :: "Diagnostic list \<Rightarrow> Diagnostic option \<Rightarrow> Diagnostic list" where
  "pushOpt diagnostics d = (case d of None \<Rightarrow> diagnostics | Some x \<Rightarrow> diagnostics @ [x])"

text \<open>The body of the loop of \<^verbatim>\<open>updateDiagnostics\<close>, for one parsed command.\<close>

definition validateCommand ::
  "DataLoader \<Rightarrow> (string \<rightharpoonup> ParsedLabel) \<Rightarrow> Diagnostic list \<Rightarrow> ParsedCommand \<Rightarrow> Diagnostic list" where
  "validateCommand dl lbls diagnostics cmd =
     (case getCommand dl (cmd_name cmd) of
        None \<Rightarrow>
          diagnostics @
            [createDiagnostic (cmd_range cmd) (''Unknown command: '' @ cmd_name cmd) Error]
      | Some cmdDef \<Rightarrow>
          (let d1 = pushOpt diagnostics (validateArgumentCount cmd cmdDef);
               d2 = d1 @ validateArgumentTypes cmd cmdDef;
               d3 = pushOpt d2 (validateLabelReference cmd cmdDef lbls);
               d4 = pushOpt d3 (validateComparator cmd cmdDef)
           in d4))"

text \<open>
  The diagnostics stored for the document; \<open>None\<close> when the document is of another
  language and the collection is left as it was.
\<close>

definition updateDiagnostics :: "DataLoader \<Rightarrow> string \<Rightarrow> string list \<Rightarrow> Diagnostic list option" where
  "updateDiagnostics dl languageId document =
     (if languageId \<noteq> ''bdsp-ev'' then None
      else
        (let parsed = parseDocument document in
         Some (foldl (validateCommand dl (labels parsed)) [] (commands parsed))))"

section \<open>Auxiliary notions for the statements\<close>

text \<open>An optional diagnostic as the list of what is pushed.\<close>

definition optList :: "'a option \<Rightarrow> 'a list" where
  "optList d = (case d of None \<Rightarrow> [] | Some x \<Rightarrow> [x])"

text \<open>The table entry of a label \<open>n\<close> declared on line \<open>i\<close>: its range covers the name
  and the colon, from column 0.\<close>

definition labelEntry :: "string \<Rightarrow> nat \<Rightarrow> ParsedLabel" where
  "labelEntry n i =
     \<lparr>lbl_name = n, lbl_line = i,
      lbl_range = \<lparr>startLine = i, startCharacter = 0, endLine = i, endCharacter = length n + 1\<rparr>\<rparr>"

subsection \<open>The splitting rule of the specification\<close>

text \<open>
  The splitting rule in the words of the specification: the text is cut at top-level
  commas only; a comma between a quote character and the next occurrence of the same
  quote character is not a separator.  The first argument is the quote that is open, the
  second the segment read so far.
\<close>

fun splitTopLevel :: "char option \<Rightarrow> string \<Rightarrow> string \<Rightarrow> string list" where
  "splitTopLevel q cur [] = [cur]"
| "splitTopLevel None cur (c # cs) =
     (if c = CHR '','' then cur # splitTopLevel None [] cs
      else if isQuote c then splitTopLevel (Some c) (cur @ [c]) cs
      else splitTopLevel None (cur @ [c]) cs)"
| "splitTopLevel (Some q) cur (c # cs) =
     (if c = q then splitTopLevel None (cur @ [c]) cs
      else splitTopLevel (Some q) (cur @ [c]) cs)"

definition spec_segments :: "string \<Rightarrow> string list" where
  "spec_segments t = splitTopLevel None [] t"

text \<open>A segment that is empty or white space only.\<close>

definition isBlank :: "string \<Rightarrow> bool" where
  "isBlank s = (trim s = [])"

subsection \<open>Reading the scanner's state\<close>

text \<open>
  Reading the loop state of \<^verbatim>\<open>parseArguments\<close>: the quote that is open, the
  shape of a reachable state, and what the code after the loop returns.
\<close>

definition openQuote :: "ArgScan \<Rightarrow> char option" where
  "openQuote s =
     (if sc_inString s then (case sc_stringChar s of [q] \<Rightarrow> Some q | _ \<Rightarrow> None) else None)"

definition scanOk :: "ArgScan \<Rightarrow> bool" where
  "scanOk s = (if sc_inString s then length (sc_stringChar s) = 1 else True)"

definition finishScan :: "nat \<Rightarrow> ArgScan \<Rightarrow> ParsedArgument list" where
  "finishScan line s =
     (if trim (sc_currentArg s) \<noteq> []
      then sc_args s @
             [createArgument (trim (sc_currentArg s)) line (sc_argStartCol s) (sc_col s + 1)]
      else sc_args s)"

subsection \<open>Command names\<close>

text \<open>A command name as the pattern captures it: \<^verbatim>\<open>[A-Z_][A-Z0-9_]*\<close>.\<close>

definition isCmdName :: "string \<Rightarrow> bool" where
  "isCmdName name =
     (case name of [] \<Rightarrow> False | c # cs \<Rightarrow> isCmdStart c \<and> list_all isCmdChar cs)"

subsection \<open>Label declarations in the words of the specification\<close>

text \<open>
  The label rule as the specification words it, on the text of a line: the line declares
  the label \<open>n\<close> when \<open>n\<close> is an identifier (a letter or underscore, then letters, digits
  and underscores) and the line starts with \<open>n\<close> followed at once by a colon.
\<close>

definition isLabelName :: "string \<Rightarrow> bool" where
  "isLabelName n =
     (case n of [] \<Rightarrow> False | c # cs \<Rightarrow> isLabelStart c \<and> list_all isLabelChar cs)"

definition declaresLabel :: "string \<Rightarrow> string \<Rightarrow> bool" where
  "declaresLabel text n = (isLabelName n \<and> startsWith text (n @ '':''))"

subsection \<open>Top-level commas in the words of the specification\<close>

text \<open>
  The number of top-level commas of a text, commas inside quotes not counted: one less
  than the number of its top-level segments.
\<close>

definition spec_topLevelCommas :: "string \<Rightarrow> nat" where
  "spec_topLevelCommas t = length (spec_segments t) - 1"

section \<open>A small registry for the examples\<close>

definition exampleArg :: "string \<Rightarrow> string list \<Rightarrow> bool \<Rightarrow> CommandArg" where
  "exampleArg n tys opt =
     \<lparr>TentativeName = n, ArgDescription = [], Type = Some tys, Optional = opt\<rparr>"

definition exampleCommand :: "int \<Rightarrow> string \<Rightarrow> CommandArg list \<Rightarrow> Command" where
  "exampleCommand k n as =
     \<lparr>CmdId = k, Name = n, Description = [], Dummy = False, Animation = False, Args = Some as\<rparr>"

definition jumpDef :: Command where
  "jumpDef = exampleCommand 1 ''_JUMP'' [exampleArg ''label'' [''Label''] False]"

definition ifvalJumpDef :: Command where
  "ifvalJumpDef =
     exampleCommand 2 ''_IFVAL_JUMP''
       [exampleArg ''work'' [''Work''] False, exampleArg ''cmp'' [] False,
        exampleArg ''value'' [''Number'', ''Work''] False, exampleArg ''label'' [''Label''] False]"

definition timeWaitDef :: Command where
  "timeWaitDef =
     exampleCommand 3 ''_TIME_WAIT''
       [exampleArg ''frames'' [''Number''] False, exampleArg ''work'' [''Work''] False,
        exampleArg ''flag'' [''Flag''] True]"

definition ifFlagonJumpDef :: Command where
  "ifFlagonJumpDef =
     exampleCommand 4 ''_IF_FLAGON_JUMP''
       [exampleArg ''flag'' [''Flag''] False, exampleArg ''label'' [''Label''] False]"

definition exampleLoader :: DataLoader where
  "exampleLoader =
     \<lparr>commandLookup =
        [''_JUMP'' \<mapsto> jumpDef, ''_IFVAL_JUMP'' \<mapsto> ifvalJumpDef, ''_TIME_WAIT'' \<mapsto> timeWaitDef,
         ''_IF_FLAGON_JUMP'' \<mapsto> ifFlagonJumpDef]\<rparr>"

text \<open>A script with a label, two references to it and two references to labels that no
  line declares.\<close>

definition exampleScript :: "string list" where
  "exampleScript =
     [''ev_a:'',
      ''_JUMP(\"ev_a\")'',
      ''_JUMP(\"missing_label\")'',
      ''_IFVAL_JUMP(@LOCALWORK1, EQ, 5, \"ev_b\")'',
      ''_IF_FLAGON_JUMP(#FH_01, \"ev_a\")'']"

section \<open>Lemmas\<close>

subsection \<open>The validator, command by command\<close>

lemma pushOpt_append: "pushOpt ds d = ds @ optList d"
  by (simp add: pushOpt_def optList_def split: option.splits)

lemma validateCommand_known:
  assumes "getCommand dl (cmd_name cmd) = Some cmdDef"
  shows "validateCommand dl lbls diagnostics cmd =
           diagnostics @ optList (validateArgumentCount cmd cmdDef)
             @ validateArgumentTypes cmd cmdDef
             @ optList (validateLabelReference cmd cmdDef lbls)
             @ optList (validateComparator cmd cmdDef)"
  using assms by (simp add: validateCommand_def pushOpt_append)

lemma validateCommand_acc:
  "validateCommand dl lbls diagnostics cmd = diagnostics @ validateCommand dl lbls [] cmd"
  by (cases "getCommand dl (cmd_name cmd)") (simp_all add: validateCommand_def pushOpt_append)

lemma foldl_validateCommand:
  "foldl (validateCommand dl lbls) acc cmds = acc @ concat (map (validateCommand dl lbls []) cmds)"
proof (induction cmds arbitrary: acc)
  case Nil
  show ?case by simp
next
  case (Cons c cs)
  have "foldl (validateCommand dl lbls) acc (c # cs) =
          validateCommand dl lbls acc c @ concat (map (validateCommand dl lbls []) cs)"
    by (simp add: Cons.IH)
  also have "validateCommand dl lbls acc c = acc @ validateCommand dl lbls [] c"
    by (rule validateCommand_acc)
  finally show ?case by simp
qed

lemma updateDiagnostics_per_command:
  "updateDiagnostics dl ''bdsp-ev'' document =
     Some (concat (map (validateCommand dl (labels (parseDocument document)) [])
                     (commands (parseDocument document))))"
  by (simp add: updateDiagnostics_def Let_def foldl_validateCommand)

lemma showNat_small:
  "showNat (Suc 0) = ''1''" "showNat 2 = ''2''" "showNat 3 = ''3''" "showNat 4 = ''4''"
  by code_simp+

subsection \<open>The label table\<close>

lemma labelStart_not_space: "isLabelStart c \<Longrightarrow> \<not> isWhiteSpace c"
  by (auto simp: isLabelStart_def isWhiteSpace_def isLower_def isUpper_def charCode_def Let_def)

lemma labelStart_not_comment: "isLabelStart c \<Longrightarrow> c \<noteq> CHR '';'' \<and> c \<noteq> CHR ''/''"
  by (auto simp: isLabelStart_def isLower_def isUpper_def charCode_def Let_def)

lemma rev_dropWhile_rev_Cons:
  "\<not> P c \<Longrightarrow> \<exists>ys. rev (dropWhile P (rev (c # cs))) = c # ys"
proof (induction cs rule: rev_induct)
  case Nil
  then show ?case by simp
next
  case (snoc x xs)
  then show ?case by (cases "P x") auto
qed

lemma trim_Cons: "\<not> isWhiteSpace c \<Longrightarrow> \<exists>ys. trim (c # cs) = c # ys"
  using rev_dropWhile_rev_Cons [of isWhiteSpace c cs] by (simp add: trim_def)

lemma labelMatch_Cons:
  "labelMatch text = Some n \<Longrightarrow> \<exists>c cs. text = c # cs \<and> isLabelStart c \<and> n = c # takeWhile isLabelChar cs"
  by (auto simp: labelMatch_def split: list.splits if_splits)

lemma labelMatch_not_skipped:
  assumes "labelMatch text = Some n"
  shows "\<not> isSkipped text"
proof -
  from labelMatch_Cons [OF assms] obtain c cs where t: "text = c # cs" and c: "isLabelStart c"
    by blast
  from trim_Cons [OF labelStart_not_space [OF c], of cs] obtain ys where "trim text = c # ys"
    using t by auto
  then show ?thesis
    using labelStart_not_comment [OF c] by (simp add: isSkipped_def startsWith_def)
qed

lemma labelMatch_prefix:
  assumes "labelMatch text = Some n"
  shows "take (length n) text = n" and "n \<noteq> []"
proof -
  from labelMatch_Cons [OF assms] obtain c cs where t: "text = c # cs"
    and n: "n = c # takeWhile isLabelChar cs"
    by blast
  show "take (length n) text = n"
    using t n takeWhile_eq_take [of isLabelChar cs] by simp
  show "n \<noteq> []" using n by simp
qed

lemma findFrom_prefix: "take (length needle) s = needle \<Longrightarrow> findFrom needle s k = int k"
  by (cases s) auto

lemma labelMatch_indexOf:
  assumes "labelMatch text = Some n"
  shows "indexOf text n 0 = 0"
  using labelMatch_prefix(1) [OF assms] by (simp add: indexOf_def findFrom_prefix)

text \<open>The label pattern matches exactly the lines that declare a label.\<close>

lemma takeWhile_run:
  assumes "\<forall>x\<in>set xs. P x" and "ys = [] \<or> \<not> P (hd ys)"
  shows "takeWhile P (xs @ ys) = xs" and "dropWhile P (xs @ ys) = ys"
proof -
  have t: "takeWhile P ys = []" and d: "dropWhile P ys = ys"
    using assms(2) by (cases ys; simp)+
  show "takeWhile P (xs @ ys) = xs" using assms(1) t by (simp add: takeWhile_append2)
  show "dropWhile P (xs @ ys) = ys" using assms(1) d by (simp add: dropWhile_append2)
qed

lemma labelChar_not_colon: "isLabelChar c \<Longrightarrow> c \<noteq> CHR '':''"
  by (auto simp: isLabelChar_def isLower_def isUpper_def isDigit_def charCode_def Let_def)

lemma labelMatch_declares:
  assumes "labelMatch text = Some n"
  shows "declaresLabel text n"
proof -
  from assms obtain c cs where t: "text = c # cs" and c: "isLabelStart c"
    by (cases "text") (auto simp: labelMatch_def split: if_splits)
  from assms t c obtain rest where r: "dropWhile isLabelChar cs = CHR '':'' # rest"
    and n: "n = c # takeWhile isLabelChar cs"
    by (auto simp: labelMatch_def split: list.splits if_splits)
  have "cs = takeWhile isLabelChar cs @ dropWhile isLabelChar cs" by simp
  then have cs: "cs = takeWhile isLabelChar cs @ CHR '':'' # rest" using r by simp
  have "text = n @ '':'' @ rest"
    unfolding t n using cs by simp
  then have "startsWith text (n @ '':'')" by (simp add: startsWith_def)
  moreover have "isLabelName n"
    unfolding n using c by (auto simp: isLabelName_def list_all_iff dest: set_takeWhileD)
  ultimately show ?thesis by (simp add: declaresLabel_def)
qed

lemma declares_labelMatch:
  assumes "declaresLabel text n"
  shows "labelMatch text = Some n"
proof -
  from assms have nm: "isLabelName n" and sw: "take (length n + 1) text = n @ '':''"
    by (simp_all add: declaresLabel_def startsWith_def)
  from nm obtain c ns where n: "n = c # ns" and c: "isLabelStart c"
    and ns: "\<forall>x\<in>set ns. isLabelChar x"
    by (cases n) (auto simp: isLabelName_def list_all_iff)
  define rest where "rest = drop (length n + 1) text"
  have "text = (n @ '':'') @ rest"
    unfolding rest_def using sw by (metis append_take_drop_id)
  then have t: "text = c # ns @ CHR '':'' # rest"
    using n by simp
  have h: "CHR '':'' # rest = [] \<or> \<not> isLabelChar (hd (CHR '':'' # rest))"
    using labelChar_not_colon by auto
  have tw: "takeWhile isLabelChar (ns @ CHR '':'' # rest) = ns"
    and dw: "dropWhile isLabelChar (ns @ CHR '':'' # rest) = CHR '':'' # rest"
    using takeWhile_run [OF ns h] by simp_all
  have "labelMatch (c # ns @ CHR '':'' # rest) = Some (c # ns)"
    using c by (simp add: labelMatch_def tw dw)
  then show ?thesis using t n by simp
qed

lemma labelMatch_iff_declares: "labelMatch text = Some n \<longleftrightarrow> declaresLabel text n"
  using labelMatch_declares declares_labelMatch by blast

lemma labelArgIndex_table:
  "labelArgIndex cmdName = Some idx \<longleftrightarrow>
     (cmdName, idx) \<in> set [(''_JUMP'', 0), (''_CALL'', 0),
        (''_IF_FLAGON_JUMP'', 1), (''_IF_FLAGOFF_JUMP'', 1),
        (''_IF_FLAGON_CALL'', 1), (''_IF_FLAGOFF_CALL'', 1),
        (''_IFVAL_JUMP'', 3), (''_IFVAL_CALL'', 3),
        (''_OBJ_ANIME'', 1)]"
proof -
  have "distinct (map fst labelArgIndexTable)" by (simp add: labelArgIndexTable_def)
  then have "map_of labelArgIndexTable cmdName = Some idx \<longleftrightarrow>
               (cmdName, idx) \<in> set labelArgIndexTable"
    by (rule map_of_eq_Some_iff)
  then show ?thesis by (simp only: labelArgIndex_def labelArgIndexTable_def)
qed

lemma labels_labelStep:
  "labels (labelStep text i d) =
     (case labelMatch text of None \<Rightarrow> labels d | Some n \<Rightarrow> (labels d)(n \<mapsto> labelEntry n i))"
  by (auto simp: labelStep_def labelMatch_indexOf mkRange_def labelEntry_def split: option.splits)

lemma labels_commandStep: "labels (commandStep text i d) = labels d"
  by (simp add: commandStep_def Let_def split: option.splits)

lemma labels_parseLine:
  "labels (parseLine text i d) =
     (case labelMatch text of None \<Rightarrow> labels d | Some n \<Rightarrow> (labels d)(n \<mapsto> labelEntry n i))"
proof (cases "isSkipped text")
  case True
  then have "labelMatch text = None"
    using labelMatch_not_skipped by (cases "labelMatch text") auto
  with True show ?thesis by (simp add: parseLine_def)
next
  case False
  then show ?thesis by (simp add: parseLine_def labels_commandStep labels_labelStep)
qed

lemma parseLoop_snoc:
  "parseLoop (ts @ [t]) i d = parseLine t (i + length ts) (parseLoop ts i d)"
  by (induction ts arbitrary: i d) simp_all

lemma labels_parseLoop_last:
  assumes "j < length ts" and "labelMatch (ts ! j) = Some n"
    and "\<forall>k. j < k \<and> k < length ts \<longrightarrow> labelMatch (ts ! k) \<noteq> Some n"
  shows "labels (parseLoop ts i d) n = Some (labelEntry n (i + j))"
  using assms
proof (induction ts rule: rev_induct)
  case Nil
  then show ?case by simp
next
  case (snoc t ts)
  show ?case
  proof (cases "j = length ts")
    case True
    with snoc.prems(2) have "labelMatch t = Some n" by simp
    then show ?thesis using True by (simp add: parseLoop_snoc labels_parseLine)
  next
    case False
    with snoc.prems(1) have j: "j < length ts" by simp
    have m: "labelMatch (ts ! j) = Some n"
      using snoc.prems(2) j by (simp add: nth_append)
    have later: "\<forall>k. j < k \<and> k < length ts \<longrightarrow> labelMatch (ts ! k) \<noteq> Some n"
    proof (intro allI impI)
      fix k assume k: "j < k \<and> k < length ts"
      then have "labelMatch ((ts @ [t]) ! k) \<noteq> Some n"
        using snoc.prems(3) by simp
      then show "labelMatch (ts ! k) \<noteq> Some n" using k by (simp add: nth_append)
    qed
    have "labelMatch ((ts @ [t]) ! length ts) \<noteq> Some n"
      using snoc.prems(3) [rule_format, of "length ts"] j by simp
    then have t: "labelMatch t \<noteq> Some n" by simp
    have "labels (parseLoop (ts @ [t]) i d) n = labels (parseLoop ts i d) n"
      using t by (auto simp: parseLoop_snoc labels_parseLine split: option.splits)
    then show ?thesis using snoc.IH [OF j m later] by simp
  qed
qed

lemma labels_parseLoop_defined:
  "labels (parseLoop ts i d) n \<noteq> None \<longleftrightarrow>
     labels d n \<noteq> None \<or> (\<exists>j<length ts. labelMatch (ts ! j) = Some n)"
proof (induction ts rule: rev_induct)
  case Nil
  show ?case by simp
next
  case (snoc t ts)
  have ex: "(\<exists>j<length (ts @ [t]). labelMatch ((ts @ [t]) ! j) = Some n) \<longleftrightarrow>
              (\<exists>j<length ts. labelMatch (ts ! j) = Some n) \<or> labelMatch t = Some n"
  proof
    assume "\<exists>j<length (ts @ [t]). labelMatch ((ts @ [t]) ! j) = Some n"
    then obtain j where j: "j < length (ts @ [t])" and m: "labelMatch ((ts @ [t]) ! j) = Some n"
      by blast
    show "(\<exists>j<length ts. labelMatch (ts ! j) = Some n) \<or> labelMatch t = Some n"
    proof (cases "j < length ts")
      case True
      with m have "labelMatch (ts ! j) = Some n" by (simp add: nth_append)
      with True show ?thesis by blast
    next
      case False
      with j have "j = length ts" by simp
      with m show ?thesis by simp
    qed
  next
    assume "(\<exists>j<length ts. labelMatch (ts ! j) = Some n) \<or> labelMatch t = Some n"
    then show "\<exists>j<length (ts @ [t]). labelMatch ((ts @ [t]) ! j) = Some n"
    proof
      assume "\<exists>j<length ts. labelMatch (ts ! j) = Some n"
      then obtain j where j: "j < length ts" and m: "labelMatch (ts ! j) = Some n" by blast
      from j m have "labelMatch ((ts @ [t]) ! j) = Some n" by (simp add: nth_append)
      moreover from j have "j < length (ts @ [t])" by simp
      ultimately show ?thesis by blast
    next
      assume "labelMatch t = Some n"
      then have "labelMatch ((ts @ [t]) ! length ts) = Some n" by simp
      moreover have "length ts < length (ts @ [t])" by simp
      ultimately show ?thesis by blast
    qed
  qed
  have step: "labels (parseLoop (ts @ [t]) i d) n \<noteq> None \<longleftrightarrow>
                labels (parseLoop ts i d) n \<noteq> None \<or> labelMatch t = Some n"
  proof (cases "labelMatch t")
    case None
    then show ?thesis by (simp add: parseLoop_snoc labels_parseLine)
  next
    case (Some m)
    then show ?thesis by (cases "m = n") (simp_all add: parseLoop_snoc labels_parseLine)
  qed
  show ?case
    unfolding ex step snoc.IH by blast
qed

lemma commands_labelStep: "commands (labelStep text i d) = commands d"
  by (simp add: labelStep_def Let_def split: option.splits)

lemma commands_commandStep:
  "commands (commandStep text i d) =
     (case cmdMatch text of
        None \<Rightarrow> commands d
      | Some cmdName \<Rightarrow> commands d @ [parseCommand text i cmdName])"
  by (simp add: commandStep_def Let_def split: option.splits)

lemma commands_parseLine_grow: "set (commands d) \<subseteq> set (commands (parseLine text i d))"
proof (cases "isSkipped text")
  case True
  then show ?thesis by (simp add: parseLine_def)
next
  case False
  then have "commands (parseLine text i d) = commands (commandStep text i (labelStep text i d))"
    by (simp add: parseLine_def)
  then show ?thesis
    by (cases "cmdMatch text") (auto simp: commands_commandStep commands_labelStep)
qed

lemma commands_parseLine_match:
  assumes "\<not> isSkipped text" and "cmdMatch text = Some cmdName"
  shows "commands (parseLine text i d) = commands d @ [parseCommand text i cmdName]"
  using assms by (simp add: parseLine_def commands_commandStep commands_labelStep)

lemma commands_parseLoop_member:
  assumes "j < length ts" and "\<not> isSkipped (ts ! j)" and "cmdMatch (ts ! j) = Some cmdName"
  shows "parseCommand (ts ! j) (i + j) cmdName \<in> set (commands (parseLoop ts i d))"
  using assms
proof (induction ts rule: rev_induct)
  case Nil
  then show ?case by simp
next
  case (snoc t ts)
  show ?case
  proof (cases "j = length ts")
    case True
    with snoc.prems have "\<not> isSkipped t" and "cmdMatch t = Some cmdName" by simp_all
    from commands_parseLine_match [OF this, of "i + length ts" "parseLoop ts i d"]
    show ?thesis using True by (simp add: parseLoop_snoc)
  next
    case False
    with snoc.prems(1) have j: "j < length ts" by simp
    have "parseCommand (ts ! j) (i + j) cmdName \<in> set (commands (parseLoop ts i d))"
      using snoc.IH [OF j] snoc.prems(2,3) j by (simp add: nth_append)
    then have "parseCommand (ts ! j) (i + j) cmdName
                 \<in> set (commands (parseLine t (i + length ts) (parseLoop ts i d)))"
      using commands_parseLine_grow by blast
    then show ?thesis using j by (simp add: parseLoop_snoc nth_append)
  qed
qed

subsection \<open>The argument scanner against the splitting rule\<close>

lemma arg_value_createArgument [simp]: "arg_value (createArgument v l a b) = v"
  by (simp add: createArgument_def Let_def)

lemma scanOk_single: "scanOk s \<Longrightarrow> sc_inString s \<Longrightarrow> \<exists>q. sc_stringChar s = [q]"
  by (cases "sc_stringChar s") (auto simp: scanOk_def)

lemma scanChar_quote_open:
  assumes "\<not> sc_inString s" and "isQuote ch"
  shows "sc_args (scanChar l c i ch s) = sc_args s"
    and "sc_currentArg (scanChar l c i ch s) = sc_currentArg s @ [ch]"
    and "openQuote (scanChar l c i ch s) = Some ch"
    and "scanOk (scanChar l c i ch s)"
  using assms by (simp_all add: scanChar_def isQuote_def openQuote_def scanOk_def Let_def)

lemma scanChar_quote_close:
  assumes "sc_inString s" and "sc_stringChar s = [ch]"
  shows "sc_args (scanChar l c i ch s) = sc_args s"
    and "sc_currentArg (scanChar l c i ch s) = sc_currentArg s @ [ch]"
    and "openQuote (scanChar l c i ch s) = None"
    and "scanOk (scanChar l c i ch s)"
  using assms by (simp_all add: scanChar_def openQuote_def scanOk_def Let_def)

lemma scanChar_inside:
  assumes "sc_inString s" and "sc_stringChar s = [q]" and "ch \<noteq> q"
  shows "sc_args (scanChar l c i ch s) = sc_args s"
    and "sc_currentArg (scanChar l c i ch s) = sc_currentArg s @ [ch]"
    and "openQuote (scanChar l c i ch s) = Some q"
    and "scanOk (scanChar l c i ch s)"
  using assms by (simp_all add: scanChar_def openQuote_def scanOk_def Let_def)

lemma scanChar_comma:
  assumes "\<not> sc_inString s"
  shows "map arg_value (sc_args (scanChar l c i (CHR '','') s)) =
           map arg_value (sc_args s) @
             (if trim (sc_currentArg s) \<noteq> [] then [trim (sc_currentArg s)] else [])"
    and "sc_currentArg (scanChar l c i (CHR '','') s) = []"
    and "openQuote (scanChar l c i (CHR '','') s) = None"
    and "scanOk (scanChar l c i (CHR '','') s)"
  using assms by (simp_all add: scanChar_def openQuote_def scanOk_def Let_def)

lemma scanChar_plain:
  assumes "\<not> sc_inString s" and "\<not> isQuote ch" and "ch \<noteq> CHR '',''"
  shows "sc_args (scanChar l c i ch s) = sc_args s"
    and "sc_currentArg (scanChar l c i ch s) = sc_currentArg s @ [ch]"
    and "openQuote (scanChar l c i ch s) = None"
    and "scanOk (scanChar l c i ch s)"
  using assms by (simp_all add: scanChar_def isQuote_def openQuote_def scanOk_def Let_def)

lemma openQuote_None: "\<not> sc_inString s \<Longrightarrow> openQuote s = None"
  by (simp add: openQuote_def)

lemma openQuote_Some: "sc_inString s \<Longrightarrow> sc_stringChar s = [q] \<Longrightarrow> openQuote s = Some q"
  by (simp add: openQuote_def)

lemma values_finishScan:
  "map arg_value (finishScan l s) =
     map arg_value (sc_args s) @ map trim (filter (\<lambda>x. trim x \<noteq> []) [sc_currentArg s])"
  by (simp add: finishScan_def)

lemma scanArgs_values:
  assumes "scanOk s"
  shows "map arg_value (finishScan l (scanArgs l c i t s)) =
           map arg_value (sc_args s) @
             map trim (filter (\<lambda>x. trim x \<noteq> []) (splitTopLevel (openQuote s) (sc_currentArg s) t))"
  using assms
proof (induction t arbitrary: i s)
  case Nil
  show ?case by (simp add: values_finishScan)
next
  case (Cons ch t)
  let ?s' = "scanChar l c i ch s"
  show ?case
  proof (cases "sc_inString s")
    case True
    from scanOk_single [OF Cons.prems True] obtain q where q: "sc_stringChar s = [q]" by blast
    have oq: "openQuote s = Some q" by (rule openQuote_Some [OF True q])
    show ?thesis
    proof (cases "ch = q")
      case True
      note f = scanChar_quote_close [OF \<open>sc_inString s\<close> q, of l c i]
      have "map arg_value (finishScan l (scanArgs l c (Suc i) t (scanChar l c i q s))) =
              map arg_value (sc_args (scanChar l c i q s)) @
                map trim (filter (\<lambda>x. trim x \<noteq> [])
                  (splitTopLevel (openQuote (scanChar l c i q s))
                     (sc_currentArg (scanChar l c i q s)) t))"
        by (rule Cons.IH [OF f(4)])
      then show ?thesis unfolding True by (simp add: f(1,2,3) oq)
    next
      case False
      note f = scanChar_inside [OF \<open>sc_inString s\<close> q False, of l c i]
      have "map arg_value (finishScan l (scanArgs l c (Suc i) t ?s')) =
              map arg_value (sc_args ?s') @
                map trim (filter (\<lambda>x. trim x \<noteq> [])
                  (splitTopLevel (openQuote ?s') (sc_currentArg ?s') t))"
        by (rule Cons.IH [OF f(4)])
      then show ?thesis using False by (simp add: f(1,2,3) oq)
    qed
  next
    case False
    have oq: "openQuote s = None" by (rule openQuote_None [OF False])
    show ?thesis
    proof (cases "ch = CHR '',''")
      case True
      note f = scanChar_comma [OF False, of l c i]
      have "map arg_value (finishScan l (scanArgs l c (Suc i) t (scanChar l c i (CHR '','') s))) =
              map arg_value (sc_args (scanChar l c i (CHR '','') s)) @
                map trim (filter (\<lambda>x. trim x \<noteq> [])
                  (splitTopLevel (openQuote (scanChar l c i (CHR '','') s))
                     (sc_currentArg (scanChar l c i (CHR '','') s)) t))"
        by (rule Cons.IH [OF f(4)])
      then show ?thesis using True by (simp add: f(1,2,3) oq)
    next
      case notComma: False
      show ?thesis
      proof (cases "isQuote ch")
        case True
        note f = scanChar_quote_open [OF False True, of l c i]
        have "map arg_value (finishScan l (scanArgs l c (Suc i) t ?s')) =
              map arg_value (sc_args ?s') @
                map trim (filter (\<lambda>x. trim x \<noteq> [])
                  (splitTopLevel (openQuote ?s') (sc_currentArg ?s') t))"
          by (rule Cons.IH [OF f(4)])
        then show ?thesis using True notComma by (simp add: f(1,2,3) oq)
      next
        case notQuote: False
        note f = scanChar_plain [OF False notQuote notComma, of l c i]
        have "map arg_value (finishScan l (scanArgs l c (Suc i) t ?s')) =
              map arg_value (sc_args ?s') @
                map trim (filter (\<lambda>x. trim x \<noteq> [])
                  (splitTopLevel (openQuote ?s') (sc_currentArg ?s') t))"
          by (rule Cons.IH [OF f(4)])
        then show ?thesis using notQuote notComma by (simp add: f(1,2,3) oq)
      qed
    qed
  qed
qed

lemma dropWhile_all_iff: "(\<forall>x\<in>set (dropWhile P xs). P x) \<longleftrightarrow> (\<forall>x\<in>set xs. P x)"
proof (induction xs)
  case Nil
  show ?case by simp
next
  case (Cons x xs)
  then show ?case by (cases "P x") auto
qed

lemma trim_eq_Nil_iff: "trim s = [] \<longleftrightarrow> (\<forall>c\<in>set s. isWhiteSpace c)"
proof -
  have "trim s = [] \<longleftrightarrow> (\<forall>x\<in>set (rev (dropWhile isWhiteSpace s)). isWhiteSpace x)"
    by (simp add: trim_def dropWhile_eq_Nil_conv)
  also have "\<dots> \<longleftrightarrow> (\<forall>x\<in>set (dropWhile isWhiteSpace s). isWhiteSpace x)" by simp
  also have "\<dots> \<longleftrightarrow> (\<forall>c\<in>set s. isWhiteSpace c)" by (rule dropWhile_all_iff)
  finally show ?thesis .
qed

lemma space_not_separator: "isWhiteSpace c \<Longrightarrow> \<not> isQuote c \<and> c \<noteq> CHR '',''"
  by (auto simp: isWhiteSpace_def isQuote_def charCode_def Let_def)

lemma splitTopLevel_plain:
  "\<forall>c\<in>set t. \<not> isQuote c \<and> c \<noteq> CHR '','' \<Longrightarrow> splitTopLevel None cur t = [cur @ t]"
  by (induction t arbitrary: cur) simp_all

lemma initScan_fields:
  "scanOk (initScan c)" "openQuote (initScan c) = None"
  "sc_currentArg (initScan c) = []" "sc_args (initScan c) = []"
  by (simp_all add: initScan_def scanOk_def openQuote_def)

lemma parseArguments_finishScan:
  "parseArguments t l c =
     (if trim t = [] then [] else finishScan l (scanArgs l c 0 t (initScan c)))"
  by (simp add: parseArguments_def finishScan_def Let_def)

lemma parseArguments_values:
  "map arg_value (parseArguments t l c) =
     map trim (filter (\<lambda>x. trim x \<noteq> []) (spec_segments t))"
proof (cases "trim t = []")
  case True
  then have ws: "\<forall>x\<in>set t. isWhiteSpace x" by (simp add: trim_eq_Nil_iff)
  then have "\<forall>x\<in>set t. \<not> isQuote x \<and> x \<noteq> CHR '',''" using space_not_separator by blast
  then have "spec_segments t = [t]"
    using splitTopLevel_plain [of t "[]"] by (simp add: spec_segments_def)
  with True show ?thesis by (simp add: parseArguments_finishScan)
next
  case False
  then show ?thesis
    using scanArgs_values [OF initScan_fields(1), of l c 0 t]
    by (simp add: parseArguments_finishScan initScan_fields spec_segments_def)
qed



subsection \<open>A quoted literal as the whole argument text\<close>

lemma scanArgs_append:
  "scanArgs l c i (xs @ ys) s = scanArgs l c (i + length xs) ys (scanArgs l c i xs s)"
  by (induction xs arbitrary: i s) simp_all

lemma scanChar_inside_state:
  assumes "sc_inString s" and "sc_stringChar s = [q]" and "ch \<noteq> q" and "sc_currentArg s \<noteq> []"
  shows "scanChar l c i ch s = s\<lparr>sc_col := c + i, sc_currentArg := sc_currentArg s @ [ch]\<rparr>"
  using assms by (simp add: scanChar_def Let_def)

lemma scanArgs_inside_string:
  assumes "sc_inString s" and "sc_stringChar s = [q]" and "q \<notin> set body"
    and "sc_currentArg s \<noteq> []"
  shows "scanArgs l c i body s =
           s\<lparr>sc_col := (if body = [] then sc_col s else c + i + length body - 1),
             sc_currentArg := sc_currentArg s @ body\<rparr>"
  using assms
proof (induction body arbitrary: i s)
  case Nil
  show ?case by simp
next
  case (Cons ch body)
  let ?s' = "s\<lparr>sc_col := c + i, sc_currentArg := sc_currentArg s @ [ch]\<rparr>"
  have ch: "ch \<noteq> q" and body: "q \<notin> set body" using Cons.prems(3) by auto
  have step: "scanChar l c i ch s = ?s'"
    by (rule scanChar_inside_state [OF Cons.prems(1,2) ch Cons.prems(4)])
  have "scanArgs l c (Suc i) body ?s' =
          ?s'\<lparr>sc_col := (if body = [] then sc_col ?s' else c + Suc i + length body - 1),
               sc_currentArg := sc_currentArg ?s' @ body\<rparr>"
    by (rule Cons.IH) (use Cons.prems body in simp_all)
  then show ?case by (simp add: step)
qed

lemma trim_quoted:
  assumes "\<not> isWhiteSpace a" and "\<not> isWhiteSpace b"
  shows "trim (a # xs @ [b]) = a # xs @ [b]"
  using assms by (simp add: trim_def)

lemma quote_not_space: "isQuote q \<Longrightarrow> \<not> isWhiteSpace q"
  using space_not_separator by blast

lemma createArgument_quoted:
  assumes "isQuote q"
  shows "createArgument (q # v) l a b =
           \<lparr>arg_value = q # v, arg_type = T_string, arg_range = mkRange l a l b\<rparr>"
  using assms by (auto simp: createArgument_def startsWith_def isQuote_def Let_def)

lemma parseArguments_quoted_literal:
  assumes "isQuote q" and "q \<notin> set body"
  shows "parseArguments (q # body @ [q]) l c =
           [\<lparr>arg_value = q # body @ [q], arg_type = T_string,
             arg_range = \<lparr>startLine = l, startCharacter = c, endLine = l,
                           endCharacter = c + length body + 2\<rparr>\<rparr>]"
proof -
  have nws: "\<not> isWhiteSpace q" by (rule quote_not_space [OF assms(1)])
  have tr: "trim (q # body @ [q]) = q # body @ [q]" by (rule trim_quoted [OF nws nws])
  let ?s1 = "(initScan c)\<lparr>sc_col := c, sc_inString := True, sc_stringChar := [q],
                            sc_currentArg := [q]\<rparr>"
  have s1: "scanChar l c 0 q (initScan c) = ?s1"
    using assms(1) by (simp add: scanChar_def initScan_def isQuote_def Let_def)
  let ?s2 = "?s1\<lparr>sc_col := (if body = [] then c else c + 1 + length body - 1),
                   sc_currentArg := q # body\<rparr>"
  have s2: "scanArgs l c 1 body ?s1 = ?s2"
    using scanArgs_inside_string [of ?s1 q body l c 1] assms(2) by simp
  let ?s3 = "?s2\<lparr>sc_col := c + 1 + length body, sc_inString := False,
                   sc_currentArg := q # body @ [q]\<rparr>"
  have s3: "scanChar l c (1 + length body) q ?s2 = ?s3"
    by (simp add: scanChar_def Let_def)
  have "scanArgs l c 0 (q # body @ [q]) (initScan c) = scanArgs l c 1 (body @ [q]) ?s1"
    by (simp add: s1)
  also have "\<dots> = scanArgs l c (1 + length body) [q] ?s2"
    by (simp only: scanArgs_append s2)
  also have "\<dots> = ?s3" by (simp only: scanArgs.simps s3)
  finally have fin: "scanArgs l c 0 (q # body @ [q]) (initScan c) = ?s3" .
  have "parseArguments (q # body @ [q]) l c =
          [createArgument (q # body @ [q]) l c (c + 1 + length body + 1)]"
    unfolding parseArguments_finishScan fin
    by (simp add: tr finishScan_def initScan_def)
  then show ?thesis
    by (simp add: createArgument_quoted [OF assms(1)] mkRange_def)
qed

subsection \<open>The command pattern and its last match\<close>

lemma cmdStart_cmdChar: "isCmdStart c \<Longrightarrow> isCmdChar c"
  by (auto simp: isCmdStart_def isCmdChar_def)

lemma cmdChar_not_space: "isCmdChar c \<Longrightarrow> \<not> isWhiteSpace c"
  by (auto simp: isCmdChar_def isWhiteSpace_def isUpper_def isDigit_def charCode_def Let_def)

lemma cmdChar_not_paren: "isCmdChar c \<Longrightarrow> c \<noteq> CHR ''(''"
  by (auto simp: isCmdChar_def isUpper_def isDigit_def charCode_def Let_def)

lemma space_not_paren: "isWhiteSpace c \<Longrightarrow> c \<noteq> CHR ''(''"
  by (auto simp: isWhiteSpace_def charCode_def Let_def)

lemma cmdRegexAt_Some:
  assumes "cmdRegexAt s = Some (n, w)"
  shows "\<exists>rest. s = n @ w @ CHR ''('' # rest"
    and "n \<noteq> []" and "\<forall>c\<in>set n. isCmdChar c" and "\<forall>c\<in>set w. isWhiteSpace c"
proof -
  from assms obtain c cs where s: "s = c # cs" and c: "isCmdStart c"
    by (cases s) (auto simp: cmdRegexAt_def split: if_splits)
  let ?r1 = "dropWhile isCmdChar cs"
  from assms s c obtain rest where r: "dropWhile isWhiteSpace ?r1 = CHR ''('' # rest"
    and n: "n = c # takeWhile isCmdChar cs" and w: "w = takeWhile isWhiteSpace ?r1"
    by (auto simp: cmdRegexAt_def Let_def split: list.splits if_splits)
  have "cs = takeWhile isCmdChar cs @ ?r1" by simp
  moreover have "?r1 = takeWhile isWhiteSpace ?r1 @ dropWhile isWhiteSpace ?r1" by simp
  ultimately have "cs = takeWhile isCmdChar cs @ w @ CHR ''('' # rest"
    using r w by metis
  then have "s = n @ w @ CHR ''('' # rest" using s n by simp
  then show "\<exists>rest. s = n @ w @ CHR ''('' # rest" by blast
  show "n \<noteq> []" using n by simp
  show "\<forall>c\<in>set n. isCmdChar c"
    using n c cmdStart_cmdChar by (auto dest: set_takeWhileD)
  show "\<forall>c\<in>set w. isWhiteSpace c"
    using w by (auto dest: set_takeWhileD)
qed

lemma cmdRegexAt_no_paren: "CHR ''('' \<notin> set s \<Longrightarrow> cmdRegexAt s = None"
proof (cases "cmdRegexAt s")
  case None
  then show ?thesis by simp
next
  case (Some p)
  assume np: "CHR ''('' \<notin> set s"
  obtain n w where "p = (n, w)" by (cases p)
  with Some cmdRegexAt_Some(1) [of s n w] obtain rest where "s = n @ w @ CHR ''('' # rest"
    by auto
  then have "CHR ''('' \<in> set s" by simp
  with np show ?thesis by simp
qed

lemma cmdRegexAll_no_paren: "CHR ''('' \<notin> set s \<Longrightarrow> cmdRegexAll s = []"
proof (induction s)
  case Nil
  show ?case by simp
next
  case (Cons c cs)
  then have "cmdRegexAt (c # cs) = None" by (intro cmdRegexAt_no_paren) simp
  with Cons show ?case by simp
qed

lemma cmdRegexAt_name:
  assumes "isCmdName name" and "\<forall>c\<in>set ws. isWhiteSpace c"
  shows "cmdRegexAt (name @ ws @ CHR ''('' # post) = Some (name, ws)"
proof -
  from assms(1) obtain c cs where name: "name = c # cs" and c: "isCmdStart c"
    and cs: "\<forall>x\<in>set cs. isCmdChar x"
    by (cases name) (auto simp: isCmdName_def list_all_iff)
  let ?tail = "ws @ CHR ''('' # post"
  have h: "?tail = [] \<or> \<not> isCmdChar (hd ?tail)"
    using assms(2) cmdChar_not_space cmdChar_not_paren by (cases ws) auto
  have t1: "takeWhile isCmdChar (cs @ ?tail) = cs" and d1: "dropWhile isCmdChar (cs @ ?tail) = ?tail"
    using takeWhile_run [OF cs h] by simp_all
  have h2: "CHR ''('' # post = [] \<or> \<not> isWhiteSpace (hd (CHR ''('' # post))"
    using space_not_paren by auto
  have t2: "takeWhile isWhiteSpace ?tail = ws" and d2: "dropWhile isWhiteSpace ?tail = CHR ''('' # post"
    using takeWhile_run [OF assms(2) h2] by simp_all
  show ?thesis
    using c by (simp add: cmdRegexAt_def name t1 d1 t2 d2)
qed

lemma isCmdName_hd:
  assumes "isCmdName name"
  shows "name \<noteq> []" and "isCmdChar (hd name)" and "\<forall>c\<in>set name. isCmdChar c"
  using assms cmdStart_cmdChar
  by (cases name; auto simp: isCmdName_def list_all_iff)+

text \<open>
  A match that starts before a command name ends before it.
\<close>

lemma match_before_name:
  assumes eq: "u @ name @ R = n @ w @ CHR ''('' # rest"
    and name: "isCmdName name"
    and u: "u \<noteq> []" "\<not> isCmdChar (last u)"
    and n: "\<forall>c\<in>set n. isCmdChar c" and w: "\<forall>c\<in>set w. isWhiteSpace c"
  shows "\<exists>v. u = n @ w @ CHR ''('' # v \<and> rest = v @ name @ R"
proof -
  note nm = isCmdName_hd [OF name]
  from nm(1) obtain a as where as: "name = a # as" by (cases name) auto
  have a: "isCmdChar a" using nm(2) as by simp
  from append_eq_append_conv2 [THEN iffD1, OF eq] obtain us where
    alt: "(u = n @ us \<and> us @ name @ R = w @ CHR ''('' # rest) \<or>
          (u @ us = n \<and> name @ R = us @ w @ CHR ''('' # rest)"
    by blast
  have "\<not> (u @ us = n)"
  proof
    assume "u @ us = n"
    then have "last u \<in> set n" using u(1) by auto
    with n u(2) show False by blast
  qed
  with alt have u1: "u = n @ us" and e2: "us @ name @ R = w @ CHR ''('' # rest" by auto
  from append_eq_append_conv2 [THEN iffD1, OF e2] obtain vs where
    alt2: "(us = w @ vs \<and> vs @ name @ R = CHR ''('' # rest) \<or>
           (us @ vs = w \<and> name @ R = vs @ CHR ''('' # rest)"
    by blast
  have no2: "\<not> (us @ vs = w \<and> name @ R = vs @ CHR ''('' # rest)"
  proof
    assume h: "us @ vs = w \<and> name @ R = vs @ CHR ''('' # rest"
    show False
    proof (cases vs)
      case Nil
      with h as have "a = CHR ''(''" by simp
      with a cmdChar_not_paren show False by blast
    next
      case (Cons x xs)
      with h as have "a = x" by simp
      moreover have "x \<in> set w" using h Cons by auto
      ultimately show False using w a cmdChar_not_space by blast
    qed
  qed
  with alt2 have u2: "us = w @ vs" and e3: "vs @ name @ R = CHR ''('' # rest" by auto
  show ?thesis
  proof (cases vs)
    case Nil
    with e3 as have "a = CHR ''(''" by simp
    with a cmdChar_not_paren show ?thesis by blast
  next
    case (Cons x v)
    with e3 have "x = CHR ''(''" and "rest = v @ name @ R" by simp_all
    with u1 u2 Cons show ?thesis by simp
  qed
qed

lemma cmdRegexAll_last:
  assumes name: "isCmdName name" and ws: "\<forall>c\<in>set ws. isWhiteSpace c"
    and post: "CHR ''('' \<notin> set post"
  shows "u = [] \<or> \<not> isCmdChar (last u) \<Longrightarrow>
           cmdRegexAll (u @ name @ ws @ CHR ''('' # post) \<noteq> [] \<and>
           last (cmdRegexAll (u @ name @ ws @ CHR ''('' # post)) = (name, ws)"
proof (induction u rule: length_induct)
  case (1 u)
  let ?R = "ws @ CHR ''('' # post"
  have IH: "cmdRegexAll (v @ name @ ?R) \<noteq> [] \<and> last (cmdRegexAll (v @ name @ ?R)) = (name, ws)"
    if "length v < length u" and "v = [] \<or> \<not> isCmdChar (last v)" for v
    using "1.IH" that by blast
  show ?case
  proof (cases u)
    case Nil
    from isCmdName_hd(1) [OF name] obtain a as where as: "name = a # as" by (cases name) auto
    have m: "cmdRegexAt (a # as @ ?R) = Some (a # as, ws)"
      using cmdRegexAt_name [OF name ws, of post] as by simp
    have "cmdRegexAll (a # as @ ?R) =
            (a # as, ws) # cmdRegexAll (drop (length (a # as) + length ws) (as @ ?R))"
      by (simp add: m)
    also have "drop (length (a # as) + length ws) (as @ ?R) = post" by simp
    finally show ?thesis
      using Nil as cmdRegexAll_no_paren [OF post] by simp
  next
    case (Cons b u')
    with "1.prems" have lastu: "\<not> isCmdChar (last u)" and une: "u \<noteq> []" by auto
    have u'ok: "u' = [] \<or> \<not> isCmdChar (last u')"
      using lastu Cons by (cases "u' = []") auto
    show ?thesis
    proof (cases "cmdRegexAt (u @ name @ ?R)")
      case None
      then have e: "cmdRegexAll (u @ name @ ?R) = cmdRegexAll (u' @ name @ ?R)"
        using Cons by simp
      have "length u' < length u" using Cons by simp
      from IH [OF this u'ok] show ?thesis unfolding e .
    next
      case (Some p)
      obtain n w where p: "p = (n, w)" by (cases p)
      note m = cmdRegexAt_Some [OF Some [unfolded p]]
      from m(1) obtain rest where eq: "u @ name @ ?R = n @ w @ CHR ''('' # rest" by blast
      from match_before_name [OF eq name une lastu m(3) m(4)] obtain v
        where uv: "u = n @ w @ CHR ''('' # v" and rest: "rest = v @ name @ ?R" by blast
      from m(2) obtain n0 ns where n0: "n = n0 # ns" by (cases n) auto
      have tl: "u' @ name @ ?R = ns @ w @ CHR ''('' # v @ name @ ?R"
        using uv Cons n0 by simp
      have dr: "drop (length n + length w) (u' @ name @ ?R) = v @ name @ ?R"
        unfolding tl n0 by simp
      have e: "cmdRegexAll (u @ name @ ?R) = (n, w) # cmdRegexAll (v @ name @ ?R)"
        using Some p Cons dr by simp
      have lv: "length v < length u" using uv by simp
      have vok: "v = [] \<or> \<not> isCmdChar (last v)"
        using lastu uv by (cases "v = []") auto
      from IH [OF lv vok] show ?thesis unfolding e by simp
    qed
  qed
qed

subsection \<open>The columns of a parsed command\<close>

text \<open>
  When the command pattern matches, the name is found in the line and an open parenthesis
  is found at or after it: neither \<^verbatim>\<open>indexOf\<close> returns \<open>-1\<close>, so the columns that
  \<^const>\<open>parseCommand\<close> converts to natural numbers are the numbers the code has.
\<close>

lemma findFrom_bounds:
  assumes "j \<le> length s" and "take (length needle) (drop j s) = needle"
  shows "int k \<le> findFrom needle s k \<and> findFrom needle s k \<le> int (k + j)"
  using assms
proof (induction s arbitrary: k j)
  case Nil
  then show ?case by simp
next
  case (Cons c cs)
  show ?case
  proof (cases "take (length needle) (c # cs) = needle")
    case True
    then show ?thesis by simp
  next
    case False
    with Cons.prems(2) have "j \<noteq> 0" by (cases j) auto
    then obtain j' where j: "j = Suc j'" by (cases j) auto
    with Cons.prems have "j' \<le> length cs" and "take (length needle) (drop j' cs) = needle"
      by simp_all
    from Cons.IH [OF this, of "Suc k"] False j show ?thesis by simp
  qed
qed

lemma cmdRegexExec_Some:
  assumes "cmdRegexExec s k = Some (p, n, w)"
  shows "\<exists>rest. k \<le> p \<and> p - k \<le> length s \<and> drop (p - k) s = n @ w @ CHR ''('' # rest"
  using assms
proof (induction s arbitrary: k)
  case Nil
  then show ?case by simp
next
  case (Cons c cs)
  show ?case
  proof (cases "cmdRegexAt (c # cs)")
    case None
    with Cons.prems have "cmdRegexExec cs (Suc k) = Some (p, n, w)" by simp
    from Cons.IH [OF this] obtain rest where r: "Suc k \<le> p" "p - Suc k \<le> length cs"
      "drop (p - Suc k) cs = n @ w @ CHR ''('' # rest" by blast
    from r(1) obtain d where d: "p - k = Suc d" "p - Suc k = d"
      by (cases "p - k") auto
    show ?thesis using r d by auto
  next
    case (Some m)
    obtain n' w' where m: "m = (n', w')" by (cases m)
    with Some Cons.prems have e: "p = k" "n' = n" "w' = w" by simp_all
    from cmdRegexAt_Some(1) [OF Some [unfolded m]] e show ?thesis by auto
  qed
qed

lemma indexOf_from:
  "0 \<le> f \<Longrightarrow> f \<le> int (length s) \<Longrightarrow>
     indexOf s needle f = findFrom needle (drop (nat f) s) (nat f)"
  by (simp add: indexOf_def Let_def)

lemma parseCommand_columns:
  assumes "cmdMatch text = Some cmdName"
  shows "0 \<le> indexOf text cmdName 0"
    and "indexOf text cmdName 0 \<le> indexOf text ''('' (indexOf text cmdName 0)"
proof -
  from assms obtain p w where ex: "cmdRegexExec text 0 = Some (p, cmdName, w)"
    by (auto simp: cmdMatch_def)
  from cmdRegexExec_Some [OF ex] obtain rest where p: "p \<le> length text"
    and dr: "drop p text = cmdName @ w @ CHR ''('' # rest" by auto
  have occ: "take (length cmdName) (drop p text) = cmdName" using dr by simp
  let ?c = "indexOf text cmdName 0"
  have c: "?c = findFrom cmdName text 0" by (simp add: indexOf_def)
  from findFrom_bounds [OF p occ, of 0] have b: "0 \<le> ?c" "?c \<le> int p" using c by simp_all
  show "0 \<le> ?c" by (rule b(1))
  let ?q = "p + length cmdName + length w"
  have lq: "?q < length text"
  proof -
    have "length (drop p text) = length cmdName + length w + Suc (length rest)"
      using arg_cong [OF dr, of length] by simp
    then show ?thesis by simp
  qed
  have dq: "drop ?q text = CHR ''('' # rest"
  proof -
    have "drop ?q text = drop (length cmdName + length w) (drop p text)"
      by (simp add: add.commute add.left_commute)
    then show ?thesis by (simp add: dr)
  qed
  let ?k = "nat ?c"
  have k: "?k \<le> p" using b by simp
  have o2: "take (length ''('') (drop (?q - ?k) (drop ?k text)) = ''(''"
    using k dq by simp
  have l2: "?q - ?k \<le> length (drop ?k text)" using lq k by simp
  from findFrom_bounds [OF l2 o2, of ?k]
  have "int ?k \<le> findFrom ''('' (drop ?k text) ?k" by simp
  moreover have "indexOf text ''('' ?c = findFrom ''('' (drop ?k text) ?k"
    by (rule indexOf_from) (use b p in simp_all)
  ultimately show "?c \<le> indexOf text ''('' ?c" using b(1) by simp
qed

subsection \<open>The string primitives of the active call context\<close>

lemma substring_0_take: "substring s 0 (int k) = take k s"
  by (simp add: substring_def Let_def min_def max_def)

lemma substringFrom_drop: "k \<le> length s \<Longrightarrow> substringFrom s (int k) = drop k s"
  by (simp add: substringFrom_def substring_def Let_def min_def max_def)

lemma findLast_absent:
  "CHR ''('' \<notin> set s \<Longrightarrow> findLast ''('' s k acc = acc"
  by (induction s arbitrary: k acc) auto

lemma findLast_paren:
  "CHR ''('' \<notin> set post \<Longrightarrow>
     findLast ''('' (pre @ CHR ''('' # post) k acc = int (k + length pre)"
  by (induction pre arbitrary: k acc) (simp_all add: findLast_absent)

lemma lastIndexOf_paren:
  "CHR ''('' \<notin> set post \<Longrightarrow> lastIndexOf (pre @ CHR ''('' # post) ''('' = int (length pre)"
  by (simp add: lastIndexOf_def findLast_paren)

lemma findFrom_char: "findFrom [x] s k = - 1 \<longleftrightarrow> x \<notin> set s"
  by (induction s arbitrary: k) auto

lemma includesStr_char: "includesStr s [x] \<longleftrightarrow> x \<in> set s"
  by (simp add: includesStr_def indexOf_def findFrom_char)

lemma trim_name_space:
  assumes "name \<noteq> []" and "\<forall>c\<in>set name. \<not> isWhiteSpace c" and "\<forall>c\<in>set ws. isWhiteSpace c"
  shows "trim (name @ ws) = name"
proof -
  from assms(1) obtain a as where as: "name = a # as" by (cases name) auto
  have d1: "dropWhile isWhiteSpace (name @ ws) = name @ ws"
    using assms(2) as by simp
  have "rev name \<noteq> []" using assms(1) by simp
  then obtain b bs where bs: "rev name = b # bs" by (cases "rev name") auto
  have "b \<in> set name" using bs by (metis list.set_intros(1) set_rev)
  then have b: "\<not> isWhiteSpace b" using assms(2) by blast
  have "dropWhile isWhiteSpace (rev (name @ ws)) = dropWhile isWhiteSpace (rev ws @ rev name)"
    by simp
  also have "\<dots> = dropWhile isWhiteSpace (rev name)"
    by (rule dropWhile_append2) (use assms(3) in simp)
  also have "\<dots> = rev name" using bs b by simp
  finally show ?thesis by (simp add: trim_def d1)
qed

lemma cmdName_of_match:
  assumes "isCmdName name" and "\<forall>c\<in>set ws. isWhiteSpace c"
  shows "trim (replaceFirstParen (name @ ws @ ''('')) = name"
proof -
  note nm = isCmdName_hd [OF assms(1)]
  have n1: "CHR ''('' \<notin> set name" using nm(3) cmdChar_not_paren by blast
  have n2: "CHR ''('' \<notin> set ws" using assms(2) space_not_paren by blast
  have "replaceFirstParen (name @ ws @ ''('') = name @ ws"
    using n1 n2 by (simp add: replaceFirstParen_def remove1_append)
  moreover have "\<forall>c\<in>set name. \<not> isWhiteSpace c" using nm(3) cmdChar_not_space by blast
  ultimately show ?thesis using trim_name_space [OF nm(1) _ assms(2)] by simp
qed

lemma getActiveContext_no_paren:
  assumes "CHR ''('' \<notin> set (take character line)"
  shows "getActiveContext line character = None"
  using cmdRegexAll_no_paren [OF assms]
  by (simp add: getActiveContext_def substring_0_take cmdMatchAll_def Let_def)

lemma getActiveContext_after_paren:
  assumes t: "take character line = pre @ CHR ''('' # post" and post: "CHR ''('' \<notin> set post"
  shows "getActiveContext line character =
           (if cmdMatchAll (pre @ CHR ''('' # post) = [] \<or> CHR '')'' \<in> set post then None
            else Some (trim (replaceFirstParen (last (cmdMatchAll (pre @ CHR ''('' # post)))),
                       length (filter (\<lambda>c. c = CHR '','') post)))"
proof -
  have li: "lastIndexOf (pre @ CHR ''('' # post) ''('' = int (length pre)"
    by (rule lastIndexOf_paren [OF post])
  have sf: "substringFrom (pre @ CHR ''('' # post) (int (length pre)) = CHR ''('' # post"
    by (simp add: substringFrom_drop)
  show ?thesis
    by (simp add: getActiveContext_def substring_0_take t li sf includesStr_char Let_def)
qed

text \<open>
  What the query computes: none when no open parenthesis precedes the cursor or a close
  parenthesis follows the last open one; otherwise, when the last open parenthesis is
  that of a command opening, the command's name and the number of commas after that
  parenthesis.
\<close>

lemma getActiveContext_last_paren:
  assumes "t = take character line"
  shows "(CHR ''('' \<notin> set t \<longrightarrow> getActiveContext line character = None)
       \<and> (t = pre @ CHR ''('' # post \<and> CHR ''('' \<notin> set post \<and> CHR '')'' \<in> set post
            \<longrightarrow> getActiveContext line character = None)
       \<and> (t = u @ name @ ws @ CHR ''('' # rest \<and> isCmdName name
            \<and> (u = [] \<or> \<not> isCmdChar (last u)) \<and> list_all isWhiteSpace ws
            \<and> CHR ''('' \<notin> set rest \<and> CHR '')'' \<notin> set rest
            \<longrightarrow> getActiveContext line character =
                  Some (name, length (filter (\<lambda>c. c = CHR '','') rest)))"
proof (intro conjI impI)
  assume "CHR ''('' \<notin> set t"
  then show "getActiveContext line character = None"
    using assms getActiveContext_no_paren by simp
next
  assume h: "t = pre @ CHR ''('' # post \<and> CHR ''('' \<notin> set post \<and> CHR '')'' \<in> set post"
  then have "take character line = pre @ CHR ''('' # post" using assms by simp
  from getActiveContext_after_paren [OF this] h
  show "getActiveContext line character = None" by simp
next
  assume h: "t = u @ name @ ws @ CHR ''('' # rest \<and> isCmdName name
            \<and> (u = [] \<or> \<not> isCmdChar (last u)) \<and> list_all isWhiteSpace ws
            \<and> CHR ''('' \<notin> set rest \<and> CHR '')'' \<notin> set rest"
  then have name: "isCmdName name" and ws: "\<forall>c\<in>set ws. isWhiteSpace c"
    and u: "u = [] \<or> \<not> isCmdChar (last u)" and rest: "CHR ''('' \<notin> set rest"
    and np: "CHR '')'' \<notin> set rest"
    by (simp_all add: list_all_iff)
  have tk: "take character line = (u @ name @ ws) @ CHR ''('' # rest" using h assms by simp
  note lm = cmdRegexAll_last [OF name ws rest u]
  have ne: "cmdMatchAll ((u @ name @ ws) @ CHR ''('' # rest) \<noteq> []"
    using lm by (simp add: cmdMatchAll_def)
  have "last (cmdMatchAll ((u @ name @ ws) @ CHR ''('' # rest)) = name @ ws @ ''(''"
    using lm by (simp add: cmdMatchAll_def last_map)
  then have nm: "trim (replaceFirstParen (last (cmdMatchAll ((u @ name @ ws) @ CHR ''('' # rest))))
                  = name"
    using cmdName_of_match [OF name ws] by simp
  show "getActiveContext line character = Some (name, length (filter (\<lambda>c. c = CHR '','') rest))"
    using getActiveContext_after_paren [OF tk rest] ne np nm by simp
qed

section \<open>Claims about the validator\<close>

text \<open>
  Claim C1.  A parsed command whose name has no entry in the registry's command table
  adds exactly one diagnostic to the list: the error \<open>Unknown command: <name>\<close> at the
  command's range.  Nothing else is pushed for it: no arity, argument-type,
  label-reference or comparator diagnostic.
\<close>

theorem unknown_command_single_diagnostic:
  assumes "getCommand dl (cmd_name cmd) = None"
  shows "validateCommand dl lbls diagnostics cmd =
           diagnostics @
             [\<lparr>diag_range = cmd_range cmd,
               diag_message = ''Unknown command: '' @ cmd_name cmd,
               diag_severity = Error,
               diag_source = ''bdsp-ev''\<rparr>]"
  using assms by (simp add: validateCommand_def createDiagnostic_def)

theorem unknown_command_single_diagnostic_witness:
  "getCommand exampleLoader ''_FOO'' = None \<and>
   updateDiagnostics exampleLoader ''bdsp-ev'' [''_FOO(1)''] =
     Some [\<lparr>diag_range = \<lparr>startLine = 0, startCharacter = 0, endLine = 0, endCharacter = 7\<rparr>,
            diag_message = ''Unknown command: _FOO'',
            diag_severity = Error, diag_source = ''bdsp-ev''\<rparr>]"
proof -
  have cs: "commands (parseDocument [''_FOO(1)'']) =
              [\<lparr>cmd_name = ''_FOO'', cmd_line = 0, cmd_column = 0,
                cmd_args = [\<lparr>arg_value = ''1'', arg_type = T_number,
                   arg_range = \<lparr>startLine = 0, startCharacter = 5, endLine = 0, endCharacter = 6\<rparr>\<rparr>],
                cmd_range = \<lparr>startLine = 0, startCharacter = 0, endLine = 0, endCharacter = 7\<rparr>\<rparr>]"
    by code_simp
  have h: "getCommand exampleLoader ''_FOO'' = None" by code_simp
  show ?thesis
    using h unknown_command_single_diagnostic [of exampleLoader
        "\<lparr>cmd_name = ''_FOO'', cmd_line = 0, cmd_column = 0,
                cmd_args = [\<lparr>arg_value = ''1'', arg_type = T_number,
                   arg_range = \<lparr>startLine = 0, startCharacter = 5, endLine = 0, endCharacter = 6\<rparr>\<rparr>],
                cmd_range = \<lparr>startLine = 0, startCharacter = 0, endLine = 0, endCharacter = 7\<rparr>\<rparr>"
        "labels (parseDocument [''_FOO(1)''])" "[]"]
    by (simp add: updateDiagnostics_def cs)
qed

text \<open>
  Claim C2.  For a parsed command whose name is in the registry, let \<open>required\<close> be the
  number of schema slots not marked optional, \<open>maxCount\<close> the number of slots and
  \<open>actual\<close> the number of parsed arguments.  Then \<open>required \<le> maxCount\<close>, and the arity
  check contributes exactly one error (\<open>requires at least\<close>) when \<open>actual < required\<close>,
  exactly one warning (\<open>accepts at most\<close>) when \<open>actual > maxCount\<close>, and nothing
  otherwise; the other three checks contribute what they return.
\<close>

theorem argument_count_check:
  assumes "getCommand dl (cmd_name cmd) = Some cmdDef"
    and "required = length (filter (\<lambda>a. \<not> Optional a) (orEmpty (Args cmdDef)))"
    and "maxCount = length (orEmpty (Args cmdDef))"
    and "actual = length (cmd_args cmd)"
  shows "required \<le> maxCount \<and>
         validateCommand dl lbls diagnostics cmd =
           diagnostics @
             (if actual < required then
                [\<lparr>diag_range = cmd_range cmd,
                  diag_message = cmd_name cmd @ '' requires at least '' @ showNat required
                     @ '' argument(s), but got '' @ showNat actual,
                  diag_severity = Error, diag_source = ''bdsp-ev''\<rparr>]
              else if actual > maxCount then
                [\<lparr>diag_range = cmd_range cmd,
                  diag_message = cmd_name cmd @ '' accepts at most '' @ showNat maxCount
                     @ '' argument(s), but got '' @ showNat actual,
                  diag_severity = Warning, diag_source = ''bdsp-ev''\<rparr>]
              else [])
             @ validateArgumentTypes cmd cmdDef
             @ optList (validateLabelReference cmd cmdDef lbls)
             @ optList (validateComparator cmd cmdDef)"
proof -
  have "optList (validateArgumentCount cmd cmdDef) =
          (if actual < required then
                [\<lparr>diag_range = cmd_range cmd,
                  diag_message = cmd_name cmd @ '' requires at least '' @ showNat required
                     @ '' argument(s), but got '' @ showNat actual,
                  diag_severity = Error, diag_source = ''bdsp-ev''\<rparr>]
              else if actual > maxCount then
                [\<lparr>diag_range = cmd_range cmd,
                  diag_message = cmd_name cmd @ '' accepts at most '' @ showNat maxCount
                     @ '' argument(s), but got '' @ showNat actual,
                  diag_severity = Warning, diag_source = ''bdsp-ev''\<rparr>]
              else [])"
    using assms(2-4)
    by (simp add: validateArgumentCount_def optList_def createDiagnostic_def Let_def)
  moreover have "required \<le> maxCount" using assms(2,3) by simp
  ultimately show ?thesis
    using validateCommand_known [OF assms(1)] by simp
qed

theorem argument_count_check_witness:
  "getCommand exampleLoader (cmd_name (parseCommand ''_TIME_WAIT(30)'' 0 ''_TIME_WAIT''))
     = Some timeWaitDef \<and>
   validateCommand exampleLoader Map.empty [] (parseCommand ''_TIME_WAIT(30)'' 0 ''_TIME_WAIT'') =
     [\<lparr>diag_range = \<lparr>startLine = 0, startCharacter = 0, endLine = 0, endCharacter = 14\<rparr>,
       diag_message = ''_TIME_WAIT requires at least 2 argument(s), but got 1'',
       diag_severity = Error, diag_source = ''bdsp-ev''\<rparr>] \<and>
   getCommand exampleLoader (cmd_name (parseCommand ''_TIME_WAIT(30, @A, #B, 4)'' 0 ''_TIME_WAIT''))
     = Some timeWaitDef \<and>
   validateCommand exampleLoader Map.empty []
       (parseCommand ''_TIME_WAIT(30, @A, #B, 4)'' 0 ''_TIME_WAIT'') =
     [\<lparr>diag_range = \<lparr>startLine = 0, startCharacter = 0, endLine = 0, endCharacter = 25\<rparr>,
       diag_message = ''_TIME_WAIT accepts at most 3 argument(s), but got 4'',
       diag_severity = Warning, diag_source = ''bdsp-ev''\<rparr>]"
proof -
  let ?c1 = "parseCommand ''_TIME_WAIT(30)'' 0 ''_TIME_WAIT''"
  let ?c4 = "parseCommand ''_TIME_WAIT(30, @A, #B, 4)'' 0 ''_TIME_WAIT''"
  have r: "2 = length (filter (\<lambda>a. \<not> Optional a) (orEmpty (Args timeWaitDef)))" by code_simp
  have m: "3 = length (orEmpty (Args timeWaitDef))" by code_simp
  have h1: "getCommand exampleLoader (cmd_name ?c1) = Some timeWaitDef" by code_simp
  have a1: "1 = length (cmd_args ?c1)" by code_simp
  have t1: "validateArgumentTypes ?c1 timeWaitDef = []" by code_simp
  have l1: "validateLabelReference ?c1 timeWaitDef Map.empty = None" by code_simp
  have k1: "validateComparator ?c1 timeWaitDef = None" by code_simp
  have n1: "cmd_name ?c1 = ''_TIME_WAIT''" by code_simp
  have g1: "cmd_range ?c1 = \<lparr>startLine = 0, startCharacter = 0, endLine = 0, endCharacter = 14\<rparr>"
    by code_simp
  have h4: "getCommand exampleLoader (cmd_name ?c4) = Some timeWaitDef" by code_simp
  have a4: "4 = length (cmd_args ?c4)" by code_simp
  have t4: "validateArgumentTypes ?c4 timeWaitDef = []" by code_simp
  have l4: "validateLabelReference ?c4 timeWaitDef Map.empty = None" by code_simp
  have k4: "validateComparator ?c4 timeWaitDef = None" by code_simp
  have n4: "cmd_name ?c4 = ''_TIME_WAIT''" by code_simp
  have g4: "cmd_range ?c4 = \<lparr>startLine = 0, startCharacter = 0, endLine = 0, endCharacter = 25\<rparr>"
    by code_simp
  have e1: "validateCommand exampleLoader Map.empty [] ?c1 =
     [\<lparr>diag_range = \<lparr>startLine = 0, startCharacter = 0, endLine = 0, endCharacter = 14\<rparr>,
       diag_message = ''_TIME_WAIT requires at least 2 argument(s), but got 1'',
       diag_severity = Error, diag_source = ''bdsp-ev''\<rparr>]"
    using argument_count_check [OF h1 r m a1, of Map.empty "[]"]
    by (simp add: t1 l1 k1 n1 g1 optList_def showNat_small)
  have e4: "validateCommand exampleLoader Map.empty [] ?c4 =
     [\<lparr>diag_range = \<lparr>startLine = 0, startCharacter = 0, endLine = 0, endCharacter = 25\<rparr>,
       diag_message = ''_TIME_WAIT accepts at most 3 argument(s), but got 4'',
       diag_severity = Warning, diag_source = ''bdsp-ev''\<rparr>]"
    using argument_count_check [OF h4 r m a4, of Map.empty "[]"]
    by (simp add: t4 l4 k4 n4 g4 optList_def showNat_small)
  show ?thesis using h1 e1 h4 e4 by blast
qed

text \<open>
  Claim C3.  Take a parsed command whose name is in the registry and is one of the nine
  jump and call commands, with the label-bearing index of the table: 0 for \<open>_JUMP\<close> and
  \<open>_CALL\<close>, 1 for the four \<open>_IF_FLAG\<close> commands and \<open>_OBJ_ANIME\<close>, 3 for \<open>_IFVAL_JUMP\<close>
  and \<open>_IFVAL_CALL\<close>.  When the argument at that index is present and is a quoted
  string, the label check contributes the error \<open>Undefined label: <name>\<close> at that
  argument's range exactly when the quote-stripped name is absent from the label table,
  and nothing otherwise.  With the label table of a parsed document, the check
  contributes nothing exactly when some line of the document declares that name, that
  is, starts with the name followed at once by a colon.
\<close>

theorem label_reference_check:
  assumes "getCommand dl (cmd_name cmd) = Some cmdDef"
    and "(cmd_name cmd, idx) \<in> set [(''_JUMP'', 0), (''_CALL'', 0),
           (''_IF_FLAGON_JUMP'', 1), (''_IF_FLAGOFF_JUMP'', 1),
           (''_IF_FLAGON_CALL'', 1), (''_IF_FLAGOFF_CALL'', 1),
           (''_IFVAL_JUMP'', 3), (''_IFVAL_CALL'', 3),
           (''_OBJ_ANIME'', 1)]"
    and "idx < length (cmd_args cmd)"
    and "arg_type (cmd_args cmd ! idx) = T_string"
    and "target = stripQuotes (arg_value (cmd_args cmd ! idx))"
  shows "validateCommand dl lbls diagnostics cmd =
           diagnostics @ optList (validateArgumentCount cmd cmdDef)
             @ validateArgumentTypes cmd cmdDef
             @ (if lbls target = None
                then [\<lparr>diag_range = arg_range (cmd_args cmd ! idx),
                       diag_message = ''Undefined label: '' @ target,
                       diag_severity = Error, diag_source = ''bdsp-ev''\<rparr>]
                else [])
             @ optList (validateComparator cmd cmdDef)
         \<and> (validateLabelReference cmd cmdDef (labels (parseDocument document)) = None
              \<longleftrightarrow> (\<exists>j<length document. declaresLabel (document ! j) target))
         \<and> validateCommand dl (labels (parseDocument document)) diagnostics cmd =
           diagnostics @ optList (validateArgumentCount cmd cmdDef)
             @ validateArgumentTypes cmd cmdDef
             @ (if \<exists>j<length document. declaresLabel (document ! j) target
                then []
                else [\<lparr>diag_range = arg_range (cmd_args cmd ! idx),
                       diag_message = ''Undefined label: '' @ target,
                       diag_severity = Error, diag_source = ''bdsp-ev''\<rparr>])
             @ optList (validateComparator cmd cmdDef)"
proof -
  have i: "labelArgIndex (cmd_name cmd) = Some idx"
    using assms(2) by (simp only: labelArgIndex_table)
  have v: "validateLabelReference cmd cmdDef m =
             (if m target = None
              then Some \<lparr>diag_range = arg_range (cmd_args cmd ! idx),
                         diag_message = ''Undefined label: '' @ target,
                         diag_severity = Error, diag_source = ''bdsp-ev''\<rparr>
              else None)" for m
    using i assms(3-5)
    by (simp add: validateLabelReference_def argAt_def createDiagnostic_def Let_def)
  have d: "labels (parseDocument document) target \<noteq> None \<longleftrightarrow>
             (\<exists>j<length document. declaresLabel (document ! j) target)"
    using labels_parseLoop_defined [of document 0 emptyDocument target]
    by (simp add: parseDocument_def emptyDocument_def labelMatch_iff_declares)
  have c: "validateCommand dl m diagnostics cmd =
           diagnostics @ optList (validateArgumentCount cmd cmdDef)
             @ validateArgumentTypes cmd cmdDef
             @ (if m target = None
                then [\<lparr>diag_range = arg_range (cmd_args cmd ! idx),
                       diag_message = ''Undefined label: '' @ target,
                       diag_severity = Error, diag_source = ''bdsp-ev''\<rparr>]
                else [])
             @ optList (validateComparator cmd cmdDef)" for m
    unfolding validateCommand_known [OF assms(1)] v [of m] by (simp add: optList_def)
  have e: "validateLabelReference cmd cmdDef (labels (parseDocument document)) = None
              \<longleftrightarrow> (\<exists>j<length document. declaresLabel (document ! j) target)"
    unfolding v [of "labels (parseDocument document)"] d [symmetric] by simp
  have f: "validateCommand dl (labels (parseDocument document)) diagnostics cmd =
           diagnostics @ optList (validateArgumentCount cmd cmdDef)
             @ validateArgumentTypes cmd cmdDef
             @ (if \<exists>j<length document. declaresLabel (document ! j) target
                then []
                else [\<lparr>diag_range = arg_range (cmd_args cmd ! idx),
                       diag_message = ''Undefined label: '' @ target,
                       diag_severity = Error, diag_source = ''bdsp-ev''\<rparr>])
             @ optList (validateComparator cmd cmdDef)"
    unfolding c [of "labels (parseDocument document)"] d [symmetric] by simp
  from c [of lbls] e f show ?thesis by blast
qed

text \<open>
  In the example script the two references to the declared \<open>ev_a\<close> (argument 0 of
  \<open>_JUMP\<close>, argument 1 of \<open>_IF_FLAGON_JUMP\<close>) give no diagnostic, and the references to
  \<open>missing_label\<close> (argument 0 of \<open>_JUMP\<close>) and \<open>ev_b\<close> (argument 3 of \<open>_IFVAL_JUMP\<close>)
  give one error each.
\<close>

theorem label_reference_check_witness:
  "declaresLabel (exampleScript ! 0) ''ev_a'' \<and>
   labelArgIndex ''_JUMP'' = Some 0 \<and> labelArgIndex ''_IFVAL_JUMP'' = Some 3 \<and>
   labelArgIndex ''_IF_FLAGON_JUMP'' = Some 1 \<and>
   validateCommand exampleLoader (labels (parseDocument exampleScript)) []
       (parseCommand (exampleScript ! 1) 1 ''_JUMP'') = [] \<and>
   validateCommand exampleLoader (labels (parseDocument exampleScript)) []
       (parseCommand (exampleScript ! 2) 2 ''_JUMP'') =
     [\<lparr>diag_range = \<lparr>startLine = 2, startCharacter = 6, endLine = 2, endCharacter = 21\<rparr>,
       diag_message = ''Undefined label: missing_label'',
       diag_severity = Error, diag_source = ''bdsp-ev''\<rparr>] \<and>
   validateCommand exampleLoader (labels (parseDocument exampleScript)) []
       (parseCommand (exampleScript ! 3) 3 ''_IFVAL_JUMP'') =
     [\<lparr>diag_range = \<lparr>startLine = 3, startCharacter = 31, endLine = 3, endCharacter = 38\<rparr>,
       diag_message = ''Undefined label: ev_b'',
       diag_severity = Error, diag_source = ''bdsp-ev''\<rparr>] \<and>
   validateCommand exampleLoader (labels (parseDocument exampleScript)) []
       (parseCommand (exampleScript ! 4) 4 ''_IF_FLAGON_JUMP'') = [] \<and>
   updateDiagnostics exampleLoader ''bdsp-ev'' exampleScript =
     Some [\<lparr>diag_range = \<lparr>startLine = 2, startCharacter = 6, endLine = 2, endCharacter = 21\<rparr>,
            diag_message = ''Undefined label: missing_label'',
            diag_severity = Error, diag_source = ''bdsp-ev''\<rparr>,
           \<lparr>diag_range = \<lparr>startLine = 3, startCharacter = 31, endLine = 3, endCharacter = 38\<rparr>,
            diag_message = ''Undefined label: ev_b'',
            diag_severity = Error, diag_source = ''bdsp-ev''\<rparr>]"
proof -
  let ?m = "labels (parseDocument exampleScript)"
  let ?c1 = "parseCommand (exampleScript ! 1) 1 ''_JUMP''"
  let ?c2 = "parseCommand (exampleScript ! 2) 2 ''_JUMP''"
  let ?c3 = "parseCommand (exampleScript ! 3) 3 ''_IFVAL_JUMP''"
  let ?c4 = "parseCommand (exampleScript ! 4) 4 ''_IF_FLAGON_JUMP''"
  have dl: "declaresLabel (exampleScript ! 0) ''ev_a''" by code_simp
  have l0: "0 < length exampleScript" by code_simp
  have decl: "\<exists>j<length exampleScript. declaresLabel (exampleScript ! j) ''ev_a''"
    using l0 dl by blast
  have ix: "labelArgIndex ''_JUMP'' = Some 0" "labelArgIndex ''_IFVAL_JUMP'' = Some 3"
    "labelArgIndex ''_IF_FLAGON_JUMP'' = Some 1"
    by code_simp+

  have h1: "getCommand exampleLoader (cmd_name ?c1) = Some jumpDef" by code_simp
  have n1: "cmd_name ?c1 = ''_JUMP''" by code_simp
  have p1: "0 < length (cmd_args ?c1)" by code_simp
  have s1: "arg_type (cmd_args ?c1 ! 0) = T_string" by code_simp
  have t1: "''ev_a'' = stripQuotes (arg_value (cmd_args ?c1 ! 0))" by code_simp
  have a1: "validateArgumentCount ?c1 jumpDef = None" by code_simp
  have y1: "validateArgumentTypes ?c1 jumpDef = []" by code_simp
  have k1: "validateComparator ?c1 jumpDef = None" by code_simp
  have i1: "(cmd_name ?c1, 0::nat) \<in> set [(''_JUMP'', 0), (''_CALL'', 0),
           (''_IF_FLAGON_JUMP'', 1), (''_IF_FLAGOFF_JUMP'', 1),
           (''_IF_FLAGON_CALL'', 1), (''_IF_FLAGOFF_CALL'', 1),
           (''_IFVAL_JUMP'', 3), (''_IFVAL_CALL'', 3),
           (''_OBJ_ANIME'', 1)]"
    unfolding n1 by simp
  have r1: "validateCommand exampleLoader ?m [] ?c1 = []"
    using label_reference_check [OF h1 i1 p1 s1 t1, of Map.empty "[]" exampleScript] decl
    unfolding a1 y1 k1 optList_def by simp

  have h2: "getCommand exampleLoader (cmd_name ?c2) = Some jumpDef" by code_simp
  have n2: "cmd_name ?c2 = ''_JUMP''" by code_simp
  have p2: "0 < length (cmd_args ?c2)" by code_simp
  have s2: "arg_type (cmd_args ?c2 ! 0) = T_string" by code_simp
  have t2: "''missing_label'' = stripQuotes (arg_value (cmd_args ?c2 ! 0))" by code_simp
  have a2: "validateArgumentCount ?c2 jumpDef = None" by code_simp
  have y2: "validateArgumentTypes ?c2 jumpDef = []" by code_simp
  have k2: "validateComparator ?c2 jumpDef = None" by code_simp
  have g2: "arg_range (cmd_args ?c2 ! 0) =
             \<lparr>startLine = 2, startCharacter = 6, endLine = 2, endCharacter = 21\<rparr>"
    by code_simp
  have u2: "?m ''missing_label'' = None" by code_simp
  have i2: "(cmd_name ?c2, 0::nat) \<in> set [(''_JUMP'', 0), (''_CALL'', 0),
           (''_IF_FLAGON_JUMP'', 1), (''_IF_FLAGOFF_JUMP'', 1),
           (''_IF_FLAGON_CALL'', 1), (''_IF_FLAGOFF_CALL'', 1),
           (''_IFVAL_JUMP'', 3), (''_IFVAL_CALL'', 3),
           (''_OBJ_ANIME'', 1)]"
    unfolding n2 by simp
  have r2: "validateCommand exampleLoader ?m [] ?c2 =
     [\<lparr>diag_range = \<lparr>startLine = 2, startCharacter = 6, endLine = 2, endCharacter = 21\<rparr>,
       diag_message = ''Undefined label: missing_label'',
       diag_severity = Error, diag_source = ''bdsp-ev''\<rparr>]"
    using label_reference_check [OF h2 i2 p2 s2 t2, of ?m "[]" "[]"]
    by (simp add: a2 y2 k2 g2 u2 optList_def)

  have h3: "getCommand exampleLoader (cmd_name ?c3) = Some ifvalJumpDef" by code_simp
  have n3: "cmd_name ?c3 = ''_IFVAL_JUMP''" by code_simp
  have p3: "3 < length (cmd_args ?c3)" by code_simp
  have s3: "arg_type (cmd_args ?c3 ! 3) = T_string" by code_simp
  have t3: "''ev_b'' = stripQuotes (arg_value (cmd_args ?c3 ! 3))" by code_simp
  have a3: "validateArgumentCount ?c3 ifvalJumpDef = None" by code_simp
  have y3: "validateArgumentTypes ?c3 ifvalJumpDef = []" by code_simp
  have k3: "validateComparator ?c3 ifvalJumpDef = None" by code_simp
  have g3: "arg_range (cmd_args ?c3 ! 3) =
             \<lparr>startLine = 3, startCharacter = 31, endLine = 3, endCharacter = 38\<rparr>"
    by code_simp
  have u3: "?m ''ev_b'' = None" by code_simp
  have i3: "(cmd_name ?c3, 3::nat) \<in> set [(''_JUMP'', 0), (''_CALL'', 0),
           (''_IF_FLAGON_JUMP'', 1), (''_IF_FLAGOFF_JUMP'', 1),
           (''_IF_FLAGON_CALL'', 1), (''_IF_FLAGOFF_CALL'', 1),
           (''_IFVAL_JUMP'', 3), (''_IFVAL_CALL'', 3),
           (''_OBJ_ANIME'', 1)]"
    unfolding n3 by simp
  have r3: "validateCommand exampleLoader ?m [] ?c3 =
     [\<lparr>diag_range = \<lparr>startLine = 3, startCharacter = 31, endLine = 3, endCharacter = 38\<rparr>,
       diag_message = ''Undefined label: ev_b'',
       diag_severity = Error, diag_source = ''bdsp-ev''\<rparr>]"
    using label_reference_check [OF h3 i3 p3 s3 t3, of ?m "[]" "[]"]
    by (simp add: a3 y3 k3 g3 u3 optList_def)

  have h4: "getCommand exampleLoader (cmd_name ?c4) = Some ifFlagonJumpDef" by code_simp
  have n4: "cmd_name ?c4 = ''_IF_FLAGON_JUMP''" by code_simp
  have p4: "1 < length (cmd_args ?c4)" by code_simp
  have s4: "arg_type (cmd_args ?c4 ! 1) = T_string" by code_simp
  have t4: "''ev_a'' = stripQuotes (arg_value (cmd_args ?c4 ! 1))" by code_simp
  have a4: "validateArgumentCount ?c4 ifFlagonJumpDef = None" by code_simp
  have y4: "validateArgumentTypes ?c4 ifFlagonJumpDef = []" by code_simp
  have k4: "validateComparator ?c4 ifFlagonJumpDef = None" by code_simp
  have i4: "(cmd_name ?c4, 1::nat) \<in> set [(''_JUMP'', 0), (''_CALL'', 0),
           (''_IF_FLAGON_JUMP'', 1), (''_IF_FLAGOFF_JUMP'', 1),
           (''_IF_FLAGON_CALL'', 1), (''_IF_FLAGOFF_CALL'', 1),
           (''_IFVAL_JUMP'', 3), (''_IFVAL_CALL'', 3),
           (''_OBJ_ANIME'', 1)]"
    unfolding n4 by simp
  have r4: "validateCommand exampleLoader ?m [] ?c4 = []"
    using label_reference_check [OF h4 i4 p4 s4 t4, of Map.empty "[]" exampleScript] decl
    unfolding a4 y4 k4 optList_def by simp

  have all: "updateDiagnostics exampleLoader ''bdsp-ev'' exampleScript =
     Some [\<lparr>diag_range = \<lparr>startLine = 2, startCharacter = 6, endLine = 2, endCharacter = 21\<rparr>,
            diag_message = ''Undefined label: missing_label'',
            diag_severity = Error, diag_source = ''bdsp-ev''\<rparr>,
           \<lparr>diag_range = \<lparr>startLine = 3, startCharacter = 31, endLine = 3, endCharacter = 38\<rparr>,
            diag_message = ''Undefined label: ev_b'',
            diag_severity = Error, diag_source = ''bdsp-ev''\<rparr>]"
    by code_simp
  show ?thesis using dl ix r1 r2 r3 r4 all by blast
qed

text \<open>
  Claim C4.  For a parsed command whose name is in the registry, the comparator check
  contributes one error at the range of the argument at index 1, citing the
  quote-stripped value and the valid set, exactly when the command is \<open>_IFVAL_JUMP\<close> or
  \<open>_IFVAL_CALL\<close>, that argument is present and its quote-stripped value is none of
  \<open>GE\<close>, \<open>GT\<close>, \<open>LE\<close>, \<open>LT\<close>, \<open>EQ\<close>, \<open>NE\<close>; otherwise it contributes nothing.
\<close>

theorem comparator_check:
  assumes "getCommand dl (cmd_name cmd) = Some cmdDef"
  shows "validateCommand dl lbls diagnostics cmd =
           diagnostics @ optList (validateArgumentCount cmd cmdDef)
             @ validateArgumentTypes cmd cmdDef
             @ optList (validateLabelReference cmd cmdDef lbls)
             @ (if (cmd_name cmd = ''_IFVAL_JUMP'' \<or> cmd_name cmd = ''_IFVAL_CALL'')
                   \<and> 1 < length (cmd_args cmd)
                   \<and> stripQuotes (arg_value (cmd_args cmd ! 1))
                        \<notin> {''GE'', ''GT'', ''LE'', ''LT'', ''EQ'', ''NE''}
                then [\<lparr>diag_range = arg_range (cmd_args cmd ! 1),
                       diag_message = ''Invalid comparator: ''
                          @ stripQuotes (arg_value (cmd_args cmd ! 1))
                          @ ''. Expected one of: GE, GT, LE, LT, EQ, NE'',
                       diag_severity = Error, diag_source = ''bdsp-ev''\<rparr>]
                else [])"
proof -
  have "optList (validateComparator cmd cmdDef) =
          (if (cmd_name cmd = ''_IFVAL_JUMP'' \<or> cmd_name cmd = ''_IFVAL_CALL'')
                   \<and> 1 < length (cmd_args cmd)
                   \<and> stripQuotes (arg_value (cmd_args cmd ! 1))
                        \<notin> {''GE'', ''GT'', ''LE'', ''LT'', ''EQ'', ''NE''}
                then [\<lparr>diag_range = arg_range (cmd_args cmd ! 1),
                       diag_message = ''Invalid comparator: ''
                          @ stripQuotes (arg_value (cmd_args cmd ! 1))
                          @ ''. Expected one of: GE, GT, LE, LT, EQ, NE'',
                       diag_severity = Error, diag_source = ''bdsp-ev''\<rparr>]
                else [])"
    by (simp add: validateComparator_def optList_def createDiagnostic_def Let_def
          IFVAL_COMMANDS_def VALID_COMPARATORS_def argAt_def)
  then show ?thesis
    using validateCommand_known [OF assms(1)] by simp
qed

theorem comparator_check_witness:
  "getCommand exampleLoader
     (cmd_name (parseCommand ''_IFVAL_JUMP(@LOCALWORK1, XX, 5, \"ev_special\")'' 0 ''_IFVAL_JUMP''))
     = Some ifvalJumpDef \<and>
   validateCommand exampleLoader [''ev_special'' \<mapsto> labelEntry ''ev_special'' 7] []
       (parseCommand ''_IFVAL_JUMP(@LOCALWORK1, XX, 5, \"ev_special\")'' 0 ''_IFVAL_JUMP'') =
     [\<lparr>diag_range = \<lparr>startLine = 0, startCharacter = 24, endLine = 0, endCharacter = 27\<rparr>,
       diag_message = ''Invalid comparator: XX. Expected one of: GE, GT, LE, LT, EQ, NE'',
       diag_severity = Error, diag_source = ''bdsp-ev''\<rparr>] \<and>
   getCommand exampleLoader
     (cmd_name (parseCommand ''_IFVAL_JUMP(@LOCALWORK1, EQ, 5, \"ev_special\")'' 0 ''_IFVAL_JUMP''))
     = Some ifvalJumpDef \<and>
   validateCommand exampleLoader [''ev_special'' \<mapsto> labelEntry ''ev_special'' 7] []
       (parseCommand ''_IFVAL_JUMP(@LOCALWORK1, EQ, 5, \"ev_special\")'' 0 ''_IFVAL_JUMP'') = []"
proof -
  let ?x = "parseCommand ''_IFVAL_JUMP(@LOCALWORK1, XX, 5, \"ev_special\")'' 0 ''_IFVAL_JUMP''"
  let ?e = "parseCommand ''_IFVAL_JUMP(@LOCALWORK1, EQ, 5, \"ev_special\")'' 0 ''_IFVAL_JUMP''"
  let ?m = "[''ev_special'' \<mapsto> labelEntry ''ev_special'' 7]"
  have hx: "getCommand exampleLoader (cmd_name ?x) = Some ifvalJumpDef" by code_simp
  have ax: "validateArgumentCount ?x ifvalJumpDef = None" by code_simp
  have tx: "validateArgumentTypes ?x ifvalJumpDef = []" by code_simp
  have lx: "validateLabelReference ?x ifvalJumpDef ?m = None" by code_simp
  have nx: "cmd_name ?x = ''_IFVAL_JUMP''" by code_simp
  have sx: "Suc 0 < length (cmd_args ?x)" by code_simp
  have vx: "stripQuotes (arg_value (cmd_args ?x ! Suc 0)) = ''XX''" by code_simp
  have gx: "arg_range (cmd_args ?x ! Suc 0) =
              \<lparr>startLine = 0, startCharacter = 24, endLine = 0, endCharacter = 27\<rparr>"
    by code_simp
  have he: "getCommand exampleLoader (cmd_name ?e) = Some ifvalJumpDef" by code_simp
  have ae: "validateArgumentCount ?e ifvalJumpDef = None" by code_simp
  have te: "validateArgumentTypes ?e ifvalJumpDef = []" by code_simp
  have le: "validateLabelReference ?e ifvalJumpDef ?m = None" by code_simp
  have ve: "stripQuotes (arg_value (cmd_args ?e ! Suc 0)) = ''EQ''" by code_simp
  have ex: "validateCommand exampleLoader ?m [] ?x =
     [\<lparr>diag_range = \<lparr>startLine = 0, startCharacter = 24, endLine = 0, endCharacter = 27\<rparr>,
       diag_message = ''Invalid comparator: XX. Expected one of: GE, GT, LE, LT, EQ, NE'',
       diag_severity = Error, diag_source = ''bdsp-ev''\<rparr>]"
    using comparator_check [OF hx, of ?m "[]"]
    by (simp add: ax tx lx nx sx vx gx optList_def)
  have ee: "validateCommand exampleLoader ?m [] ?e = []"
    using comparator_check [OF he, of ?m "[]"]
    by (simp add: ae te le ve optList_def)
  show ?thesis using hx ex he ee by blast
qed

section \<open>Claims about argument splitting\<close>

text \<open>
  Claim C5.  The values of the parsed arguments are the trimmed non-blank segments
  between the top-level commas of the argument text: a comma between a quote character
  and the next occurrence of the same quote character does not separate.  In particular
  an argument text that is one quoted literal, whatever commas it holds, yields exactly
  one argument, of kind quoted string, whose value keeps the quotes.
\<close>

theorem quoted_commas_do_not_split:
  "map arg_value (parseArguments t l c) =
     map trim (filter (\<lambda>x. \<not> isBlank x) (spec_segments t))
   \<and> (isQuote q \<and> q \<notin> set body \<longrightarrow>
        parseArguments (q # body @ [q]) l c =
          [\<lparr>arg_value = q # body @ [q], arg_type = T_string,
            arg_range = \<lparr>startLine = l, startCharacter = c, endLine = l,
                          endCharacter = c + length body + 2\<rparr>\<rparr>])"
  using parseArguments_values [of t l c] parseArguments_quoted_literal [of q body l c]
  by (simp add: isBlank_def)

text \<open>
  The line \<^verbatim>\<open>_TALKMSG("a, b")\<close> has the single argument \<^verbatim>\<open>"a, b"\<close>.
\<close>

theorem quoted_commas_do_not_split_witness:
  "isQuote (CHR 0x22) \<and> CHR 0x22 \<notin> set ''a, b'' \<and>
   commands (parseDocument [''_TALKMSG(\"a, b\")'']) =
     [\<lparr>cmd_name = ''_TALKMSG'', cmd_line = 0, cmd_column = 0,
       cmd_args = [\<lparr>arg_value = ''\"a, b\"'', arg_type = T_string,
                    arg_range = \<lparr>startLine = 0, startCharacter = 9, endLine = 0,
                                  endCharacter = 15\<rparr>\<rparr>],
       cmd_range = \<lparr>startLine = 0, startCharacter = 0, endLine = 0, endCharacter = 16\<rparr>\<rparr>]"
proof -
  have q: "isQuote (CHR 0x22)" by (simp add: isQuote_def)
  have b: "CHR 0x22 \<notin> set ''a, b''" by simp
  have p: "commands (parseDocument [''_TALKMSG(\"a, b\")'']) =
             [\<lparr>cmd_name = ''_TALKMSG'', cmd_line = 0, cmd_column = 0,
               cmd_args = parseArguments (CHR 0x22 # ''a, b'' @ [CHR 0x22]) 0 9,
               cmd_range = \<lparr>startLine = 0, startCharacter = 0, endLine = 0,
                             endCharacter = 16\<rparr>\<rparr>]"
    by code_simp
  have "parseArguments (CHR 0x22 # ''a, b'' @ [CHR 0x22]) 0 9 =
          [\<lparr>arg_value = CHR 0x22 # ''a, b'' @ [CHR 0x22], arg_type = T_string,
            arg_range = \<lparr>startLine = 0, startCharacter = 9, endLine = 0,
                          endCharacter = 9 + length ''a, b'' + 2\<rparr>\<rparr>]"
    using quoted_commas_do_not_split [of "[]" 0 9 "CHR 0x22" "''a, b''"] q b by blast
  then show ?thesis using q b by (simp add: p)
qed



section \<open>Claims about the document parser\<close>

text \<open>
  Claim C6 does not hold as stated: the table does not keep the first declaration of a
  repeated name.  Here \<open>ev_a\<close> is declared on lines 0 and 2, and the entry is that of
  line 2.
\<close>

theorem duplicate_label_first_wins_counterexample:
  "labels (parseDocument [''ev_a:'', ''_END()'', ''ev_a:'']) ''ev_a'' =
     Some \<lparr>lbl_name = ''ev_a'', lbl_line = 2,
           lbl_range = \<lparr>startLine = 2, startCharacter = 0, endLine = 2, endCharacter = 5\<rparr>\<rparr>
   \<and> labels (parseDocument [''ev_a:'', ''_END()'', ''ev_a:'']) ''ev_a'' \<noteq>
     Some \<lparr>lbl_name = ''ev_a'', lbl_line = 0,
           lbl_range = \<lparr>startLine = 0, startCharacter = 0, endLine = 0, endCharacter = 5\<rparr>\<rparr>"
  by code_simp

text \<open>
  Claim C6, amended.  When a label name is declared on several lines, the label table
  keeps the last declaration: the entry of \<open>n\<close> is that of the last line that declares
  \<open>n\<close>.
\<close>

theorem duplicate_label_last_wins:
  assumes "j < length document" and "labelMatch (document ! j) = Some n"
    and "\<forall>k. j < k \<and> k < length document \<longrightarrow> labelMatch (document ! k) \<noteq> Some n"
  shows "labels (parseDocument document) n =
           Some \<lparr>lbl_name = n, lbl_line = j,
                 lbl_range = \<lparr>startLine = j, startCharacter = 0, endLine = j,
                               endCharacter = length n + 1\<rparr>\<rparr>"
  using labels_parseLoop_last [OF assms, of 0 emptyDocument]
  by (simp add: parseDocument_def labelEntry_def)

theorem duplicate_label_last_wins_witness:
  "labels (parseDocument [''ev_a:'', ''_END()'', ''ev_a:'']) ''ev_a'' =
     Some \<lparr>lbl_name = ''ev_a'', lbl_line = 2,
           lbl_range = \<lparr>startLine = 2, startCharacter = 0, endLine = 2, endCharacter = 5\<rparr>\<rparr>"
proof -
  have m: "labelMatch ([''ev_a:'', ''_END()'', ''ev_a:''] ! 2) = Some ''ev_a''"
    by code_simp
  have l: "2 < length [''ev_a:'', ''_END()'', ''ev_a:'']" by simp
  have later: "\<forall>k. 2 < k \<and> k < length [''ev_a:'', ''_END()'', ''ev_a:''] \<longrightarrow>
                 labelMatch ([''ev_a:'', ''_END()'', ''ev_a:''] ! k) \<noteq> Some ''ev_a''"
    by auto
  from duplicate_label_last_wins [OF l m later] show ?thesis by simp
qed

text \<open>
  Claim C7.  The range of a parsed command should start at the column of the matched
  command name.  The parser takes the column of the first occurrence of the name's text
  in the line instead.  On the line \<^verbatim>\<open>EV_JUMP: _JUMP("ev_x")\<close> the pattern matches
  \<open>_JUMP\<close> at column 9, and the parsed command has column 2 and a range that starts at
  column 2, inside the label.
\<close>

theorem command_start_column_at_earlier_occurrence:
  "cmdRegexExec ''EV_JUMP: _JUMP(\"ev_x\")'' 0 = Some (9, ''_JUMP'', []) \<and>
   commands (parseDocument [''EV_JUMP: _JUMP(\"ev_x\")'']) =
     [\<lparr>cmd_name = ''_JUMP'', cmd_line = 0, cmd_column = 2,
       cmd_args = [\<lparr>arg_value = ''\"ev_x\"'', arg_type = T_string,
                    arg_range = \<lparr>startLine = 0, startCharacter = 15, endLine = 0,
                                  endCharacter = 21\<rparr>\<rparr>],
       cmd_range = \<lparr>startLine = 0, startCharacter = 2, endLine = 0, endCharacter = 22\<rparr>\<rparr>]"
  by code_simp

text \<open>
  Claim C10.  On a line that is not skipped, the label rule and the command rule are
  applied independently: the label table changes as the label pattern alone decides, and
  the command list as the command pattern alone decides.  So a line of a document that
  matches both patterns contributes both: its label is in the label table of the
  document and its parsed command is in the command list.
\<close>

theorem label_and_command_rules_independent:
  "(\<not> isSkipped text \<longrightarrow>
      labels (parseLine text i d) =
        (case labelMatch text of
           None \<Rightarrow> labels d
         | Some n \<Rightarrow> (labels d)(n \<mapsto> labelEntry n i))
      \<and> commands (parseLine text i d) =
        (case cmdMatch text of
           None \<Rightarrow> commands d
         | Some cmdName \<Rightarrow> commands d @ [parseCommand text i cmdName]))
   \<and> (j < length document \<and> labelMatch (document ! j) = Some lbl
        \<and> cmdMatch (document ! j) = Some cmd \<longrightarrow>
      labels (parseDocument document) lbl \<noteq> None
      \<and> parseCommand (document ! j) j cmd \<in> set (commands (parseDocument document)))"
proof (intro conjI impI)
  assume ns: "\<not> isSkipped text"
  show "labels (parseLine text i d) =
        (case labelMatch text of
           None \<Rightarrow> labels d
         | Some n \<Rightarrow> (labels d)(n \<mapsto> labelEntry n i))"
    by (rule labels_parseLine)
  have "commands (parseLine text i d) = commands (commandStep text i (labelStep text i d))"
    using ns by (simp add: parseLine_def)
  then show "commands (parseLine text i d) =
           (case cmdMatch text of
              None \<Rightarrow> commands d
            | Some cmdName \<Rightarrow> commands d @ [parseCommand text i cmdName])"
    by (simp add: commands_commandStep commands_labelStep split: option.splits)
next
  assume h: "j < length document \<and> labelMatch (document ! j) = Some lbl
        \<and> cmdMatch (document ! j) = Some cmd"
  then have "\<exists>k<length document. labelMatch (document ! k) = Some lbl" by blast
  then show "labels (parseDocument document) lbl \<noteq> None"
    using labels_parseLoop_defined [of document 0 emptyDocument lbl]
    by (simp add: parseDocument_def)
next
  assume h: "j < length document \<and> labelMatch (document ! j) = Some lbl
        \<and> cmdMatch (document ! j) = Some cmd"
  then have ns: "\<not> isSkipped (document ! j)" using labelMatch_not_skipped by blast
  from commands_parseLoop_member [OF _ ns, of cmd 0 emptyDocument] h
  show "parseCommand (document ! j) j cmd \<in> set (commands (parseDocument document))"
    by (simp add: parseDocument_def)
qed

text \<open>
  The line \<^verbatim>\<open>lbl: _JUMP("x")\<close> declares \<open>lbl\<close> and yields the parsed \<open>_JUMP\<close> command
  with its argument.
\<close>

theorem label_and_command_rules_independent_witness:
  "\<not> isSkipped ''lbl: _JUMP(\"x\")'' \<and>
   labelMatch ([''lbl: _JUMP(\"x\")''] ! 0) = Some ''lbl'' \<and>
   cmdMatch ([''lbl: _JUMP(\"x\")''] ! 0) = Some ''_JUMP'' \<and>
   labels (parseDocument [''lbl: _JUMP(\"x\")'']) ''lbl'' =
     Some \<lparr>lbl_name = ''lbl'', lbl_line = 0,
           lbl_range = \<lparr>startLine = 0, startCharacter = 0, endLine = 0, endCharacter = 4\<rparr>\<rparr> \<and>
   commands (parseDocument [''lbl: _JUMP(\"x\")'']) =
     [\<lparr>cmd_name = ''_JUMP'', cmd_line = 0, cmd_column = 5,
       cmd_args = [\<lparr>arg_value = ''\"x\"'', arg_type = T_string,
                    arg_range = \<lparr>startLine = 0, startCharacter = 11, endLine = 0,
                                  endCharacter = 14\<rparr>\<rparr>],
       cmd_range = \<lparr>startLine = 0, startCharacter = 5, endLine = 0, endCharacter = 15\<rparr>\<rparr>] \<and>
   labels (parseDocument [''lbl: _JUMP(\"x\")'']) ''lbl'' \<noteq> None \<and>
   parseCommand ([''lbl: _JUMP(\"x\")''] ! 0) 0 ''_JUMP''
     \<in> set (commands (parseDocument [''lbl: _JUMP(\"x\")'']))"
proof -
  let ?t = "''lbl: _JUMP(\"x\")''"
  have s: "\<not> isSkipped ?t" by code_simp
  have lm: "labelMatch ?t = Some ''lbl''" by code_simp
  have cm: "cmdMatch ?t = Some ''_JUMP''" by code_simp
  have pc: "parseCommand ?t 0 ''_JUMP'' =
     \<lparr>cmd_name = ''_JUMP'', cmd_line = 0, cmd_column = 5,
       cmd_args = [\<lparr>arg_value = ''\"x\"'', arg_type = T_string,
                    arg_range = \<lparr>startLine = 0, startCharacter = 11, endLine = 0,
                                  endCharacter = 14\<rparr>\<rparr>],
       cmd_range = \<lparr>startLine = 0, startCharacter = 5, endLine = 0, endCharacter = 15\<rparr>\<rparr>"
    by code_simp
  have pd: "parseDocument [?t] = parseLine ?t 0 emptyDocument"
    by (simp add: parseDocument_def)
  note t = label_and_command_rules_independent [of ?t 0 emptyDocument 0 "[?t]" "''lbl''" "''_JUMP''"]
  have a: "labels (parseDocument [?t]) ''lbl'' =
     Some \<lparr>lbl_name = ''lbl'', lbl_line = 0,
           lbl_range = \<lparr>startLine = 0, startCharacter = 0, endLine = 0, endCharacter = 4\<rparr>\<rparr>"
    using t s unfolding pd lm by (simp add: emptyDocument_def labelEntry_def)
  have b: "commands (parseDocument [?t]) = [parseCommand ?t 0 ''_JUMP'']"
    using t s unfolding pd cm by (simp add: emptyDocument_def)
  have c: "labels (parseDocument [?t]) ''lbl'' \<noteq> None \<and>
           parseCommand ([?t] ! 0) 0 ''_JUMP'' \<in> set (commands (parseDocument [?t]))"
    using t lm cm by simp
  show ?thesis using s lm cm a b c by (simp add: pc)
qed

section \<open>Claims about the active call context\<close>

text \<open>
  Claim C8.  The argument index should be the number of top-level commas between the
  open parenthesis and the cursor, commas inside quotes not counted.  The query counts
  every comma after the last open parenthesis.  With the cursor at the end of
  \<^verbatim>\<open>_TALKMSG("a, b", \<close> the text after the parenthesis has one top-level comma,
  and the argument splitter reads one argument before the cursor, but the query returns
  argument index 2.
\<close>

theorem active_context_counts_quoted_commas:
  "getActiveContext ''_TALKMSG(\"a, b\", '' 17 = Some (''_TALKMSG'', 2) \<and>
   spec_topLevelCommas ''\"a, b\", '' = 1 \<and>
   map arg_value (parseArguments ''\"a, b\", '' 0 9) = [''\"a, b\"'']"
  by code_simp

end
